theory Spec2Isabelle
  imports Complex_Main
begin

section \<open>JavaScript numbers\<close>

text \<open>
  A JavaScript Number is an IEEE 754 double: not-a-number, the two infinities, the two
  zeros and the finite non-zero values. \<open>Fin 0\<close> is the positive zero, \<open>NZero\<close> the
  negative one; \<open>Fin x\<close> with \<open>x \<noteq> 0\<close> is the double of value \<open>x\<close>.
\<close>

datatype jsnum = NaN | PInf | NInf | NZero | Fin real

subsection \<open>Rounding to a double\<close>

text \<open>
  The arithmetic operators of the language give the double nearest to the exact result,
  a tie going to the double with an even significand. \<open>ilog2 x\<close> is the binary exponent
  of a positive \<open>x\<close>: the \<open>e\<close> with \<open>2 powi e \<le> x < 2 powi (e + 1)\<close>.
\<close>

function ilog2 :: "real \<Rightarrow> int" where
  "ilog2 x =
     (if x \<le> 0 then 0
      else if 2 \<le> x then ilog2 (x / 2) + 1
      else if x < 1 then ilog2 (2 * x) - 1
      else 0)"
  by pat_completeness auto
termination
proof (relation "measure (\<lambda>x. nat (2 * \<lceil>1 / x\<rceil> + \<lfloor>x\<rfloor>))", goal_cases)
  case 1
  show ?case by simp
next
  case (2 x)
  then have x: "2 \<le> x" by simp
  have a: "\<lceil>1 / x\<rceil> = 1" using x by (intro ceiling_unique) auto
  have b: "\<lceil>1 / (x / 2)\<rceil> = 1" using x by (intro ceiling_unique) auto
  have c: "\<lfloor>x / 2\<rfloor> < \<lfloor>x\<rfloor>" using x by linarith
  have d: "0 \<le> \<lfloor>x / 2\<rfloor>" using x by simp
  have "nat (2 * \<lceil>1 / (x / 2)\<rceil> + \<lfloor>x / 2\<rfloor>) < nat (2 * \<lceil>1 / x\<rceil> + \<lfloor>x\<rfloor>)"
    using a b c d by linarith
  then show ?case by (simp only: in_measure)
next
  case (3 x)
  then have x: "0 < x" "x < 1" by simp_all
  have a: "\<lfloor>x\<rfloor> = 0" using x by (intro floor_unique) auto
  have b: "\<lfloor>2 * x\<rfloor> \<le> 1" using x by (simp add: floor_le_iff)
  have b0: "0 \<le> \<lfloor>2 * x\<rfloor>" using x by simp
  have c2: "2 \<le> \<lceil>1 / x\<rceil>" using x by (simp add: le_ceiling_iff)
  have "1 / (2 * x) \<le> of_int (\<lceil>1 / x\<rceil> - 1)"
  proof -
    have "1 / x \<le> of_int \<lceil>1 / x\<rceil>" by (rule le_of_int_ceiling)
    then have "1 / (2 * x) \<le> of_int \<lceil>1 / x\<rceil> / 2" by simp
    also have "\<dots> \<le> of_int (\<lceil>1 / x\<rceil> - 1)" using c2 by simp
    finally show ?thesis .
  qed
  then have c: "\<lceil>1 / (2 * x)\<rceil> \<le> \<lceil>1 / x\<rceil> - 1" by (rule ceiling_le)
  have "0 \<le> 1 / (2 * x)" using x by simp
  then have c0: "0 \<le> \<lceil>1 / (2 * x)\<rceil>" by linarith
  have "2 * \<lceil>1 / (2 * x)\<rceil> + \<lfloor>2 * x\<rfloor> < 2 * \<lceil>1 / x\<rceil> + \<lfloor>x\<rfloor>"
    using a b c by linarith
  moreover have "0 \<le> 2 * \<lceil>1 / (2 * x)\<rceil> + \<lfloor>2 * x\<rfloor>"
    using b0 c0 by linarith
  ultimately have "nat (2 * \<lceil>1 / (2 * x)\<rceil> + \<lfloor>2 * x\<rfloor>) < nat (2 * \<lceil>1 / x\<rceil> + \<lfloor>x\<rfloor>)"
    by linarith
  then show ?case by (simp only: in_measure)
qed

declare ilog2.simps [simp del]

text \<open>
  \<open>rne\<close> rounds to the nearest integer, a tie to the even one. Doubles have 53
  significant bits and exponents from \<open>-1022\<close> on, so around a positive \<open>x\<close> they are the
  multiples of \<open>quantum x\<close>; below \<open>2 powi (-1022)\<close> (the subnormal range) the spacing
  stays \<open>2 powi (-1074)\<close>. \<open>round_mag\<close> rounds a magnitude; \<open>with_sign\<close> puts the sign
  back, a rounded magnitude of \<open>2 ^ 1024\<close> or more being an infinity and one of zero a
  zero of that sign.
\<close>

definition rne :: "real \<Rightarrow> int" where
  "rne x =
     (let f = \<lfloor>x\<rfloor>; d = x - of_int f
      in if d < 1 / 2 then f
         else if 1 / 2 < d then f + 1
         else if even f then f else f + 1)"

definition expo :: "real \<Rightarrow> int" where
  "expo x = max (ilog2 x) (- 1022)"

definition quantum :: "real \<Rightarrow> real" where
  "quantum x = 2 powi (expo x - 52)"

definition round_mag :: "real \<Rightarrow> real" where
  "round_mag x = of_int (rne (x / quantum x)) * quantum x"

definition with_sign :: "bool \<Rightarrow> real \<Rightarrow> jsnum" where
  "with_sign neg r =
     (if 2 ^ 1024 \<le> r then (if neg then NInf else PInf)
      else if r = 0 then (if neg then NZero else Fin 0)
      else Fin (if neg then - r else r))"

definition fl :: "real \<Rightarrow> jsnum" where
  "fl x = with_sign (x < 0) (round_mag \<bar>x\<bar>)"

subsection \<open>The operators \<open>-\<close>, \<open>*\<close>, \<open>/\<close> and the comparisons\<close>

text \<open>
  \<open>is_neg\<close> is the sign bit, \<open>val\<close> the value of a finite number (zero for both
  zeros). Each operator follows IEEE 754: not-a-number propagates, the infinities and
  the zeros have their cases (\<open>\<infinity> - \<infinity>\<close>, \<open>0 * \<infinity>\<close>, \<open>\<infinity> / \<infinity>\<close> and \<open>0 / 0\<close> are
  not-a-number; an exact zero difference is negative only for \<open>-0 - +0\<close>; the sign of a
  product or quotient is the exclusive or of the signs), and every other result is the
  exact one rounded. The comparisons \<open><=\<close> and \<open><\<close> are false when an operand is not
  a number, and take the two zeros for equal.
\<close>

fun is_zero :: "jsnum \<Rightarrow> bool" where
  "is_zero NZero = True"
| "is_zero (Fin x) = (x = 0)"
| "is_zero _ = False"

fun is_inf :: "jsnum \<Rightarrow> bool" where
  "is_inf PInf = True"
| "is_inf NInf = True"
| "is_inf _ = False"

fun is_neg :: "jsnum \<Rightarrow> bool" where
  "is_neg NInf = True"
| "is_neg NZero = True"
| "is_neg (Fin x) = (x < 0)"
| "is_neg _ = False"

fun val :: "jsnum \<Rightarrow> real" where
  "val (Fin x) = x"
| "val _ = 0"

definition szero :: "bool \<Rightarrow> jsnum" where
  "szero neg = (if neg then NZero else Fin 0)"

definition sinf :: "bool \<Rightarrow> jsnum" where
  "sinf neg = (if neg then NInf else PInf)"

definition js_sub :: "jsnum \<Rightarrow> jsnum \<Rightarrow> jsnum" where
  "js_sub a b =
     (if a = NaN \<or> b = NaN then NaN
      else if is_inf a then (if b = a then NaN else a)
      else if is_inf b then sinf (\<not> is_neg b)
      else if val a - val b = 0 then szero (is_neg a \<and> \<not> is_neg b)
      else fl (val a - val b))"

definition js_mul :: "jsnum \<Rightarrow> jsnum \<Rightarrow> jsnum" where
  "js_mul a b =
     (if a = NaN \<or> b = NaN then NaN
      else if is_inf a \<or> is_inf b then
        (if is_zero a \<or> is_zero b then NaN else sinf (is_neg a \<noteq> is_neg b))
      else if val a * val b = 0 then szero (is_neg a \<noteq> is_neg b)
      else fl (val a * val b))"

definition js_div :: "jsnum \<Rightarrow> jsnum \<Rightarrow> jsnum" where
  "js_div a b =
     (if a = NaN \<or> b = NaN then NaN
      else if is_inf a then (if is_inf b then NaN else sinf (is_neg a \<noteq> is_neg b))
      else if is_inf b then szero (is_neg a \<noteq> is_neg b)
      else if is_zero b then (if is_zero a then NaN else sinf (is_neg a \<noteq> is_neg b))
      else if is_zero a then szero (is_neg a \<noteq> is_neg b)
      else fl (val a / val b))"

definition js_le :: "jsnum \<Rightarrow> jsnum \<Rightarrow> bool" where
  "js_le a b =
     (a \<noteq> NaN \<and> b \<noteq> NaN \<and>
      (a = NInf \<or> b = PInf \<or> (is_inf a = False \<and> is_inf b = False \<and> val a \<le> val b)))"


section \<open>JavaScript values\<close>

text \<open>
  The values \<open>JSON.parse\<close> produces, and \<open>undefined\<close>, which reading an absent
  field gives. An object is the list of its own fields.
\<close>

datatype jsval =
    Undefined
  | Null
  | Bool bool
  | Num jsnum
  | Str string
  | Arr "jsval list"
  | Obj "(string \<times> jsval) list"

text \<open>
  What the program can throw or be handed as a rejection: a \<open>TypeError\<close> (reading a
  field of \<open>undefined\<close> or \<open>null\<close>, destructuring a value that is not iterable, a
  failed network request), a \<open>SyntaxError\<close> (a body that is not JSON), and
  \<open>new Error(message)\<close>.
\<close>

datatype js_error = TypeError | SyntaxError | Error string

text \<open>ToBoolean: what \<open>a && b\<close> and \<open>if (a)\<close> test.\<close>

fun truthy :: "jsval \<Rightarrow> bool" where
  "truthy Undefined = False"
| "truthy Null = False"
| "truthy (Bool b) = b"
| "truthy (Num n) = (if n = NaN then False else if is_zero n then False else True)"
| "truthy (Str s) = (s \<noteq> [])"
| "truthy (Arr xs) = True"
| "truthy (Obj kvs) = True"

text \<open>
  \<open>v.k\<close> for the field names this program reads (\<open>properties\<close>, \<open>place\<close>, \<open>mag\<close>,
  \<open>type\<close>, \<open>url\<close>, \<open>geometry\<close>, \<open>coordinates\<close>, \<open>features\<close>), none of which names a
  member of a prototype: on \<open>undefined\<close> and \<open>null\<close> the read throws, on an object it
  gives the field or \<open>undefined\<close>, on every other value \<open>undefined\<close>.
\<close>

fun get_prop :: "jsval \<Rightarrow> string \<Rightarrow> js_error + jsval" where
  "get_prop Undefined k = Inl TypeError"
| "get_prop Null k = Inl TypeError"
| "get_prop (Obj kvs) k = (case map_of kvs k of None \<Rightarrow> Inr Undefined | Some v \<Rightarrow> Inr v)"
| "get_prop v k = Inr Undefined"

text \<open>The value of the field \<open>k\<close> of an object with the fields \<open>kvs\<close>.\<close>

definition field :: "(string \<times> jsval) list \<Rightarrow> string \<Rightarrow> jsval" where
  "field kvs k = (case map_of kvs k of None \<Rightarrow> Undefined | Some v \<Rightarrow> v)"

section \<open>The parts of the runtime the program calls\<close>

text \<open>
  ECMAScript fixes \<open>Math.pow\<close> and \<open>Math.sqrt\<close> on special arguments and leaves the
  rest "implementation-approximated"; that rest is a parameter here, as is the
  conversion of a string, an array or an object to a number.
  \<^item> \<open>Math.pow(base, exponent)\<close>: not-a-number for an exponent that is not a number,
    \<open>1\<close> for an exponent that is a zero; every other case is \<open>pow_impl\<close>.
  \<^item> \<open>Math.sqrt(x)\<close>: \<open>x\<close> itself when it is not a number, a zero or \<open>+\<infinity>\<close>;
    not-a-number when it is negative; otherwise \<open>sqrt_impl\<close>.
  \<^item> \<open>Math.PI\<close> is the double nearest to \<open>\<pi>\<close>.
  \<^item> \<open>ToNumber\<close>, which \<open>magnitude - 1\<close> applies to its operand.
\<close>

record runtime =
  pow_impl :: "jsnum \<Rightarrow> jsnum \<Rightarrow> jsnum"
  sqrt_impl :: "jsnum \<Rightarrow> jsnum"
  ToNumber_impl :: "jsval \<Rightarrow> jsnum"

definition Math_pow :: "runtime \<Rightarrow> jsnum \<Rightarrow> jsnum \<Rightarrow> jsnum" where
  "Math_pow rt base exponent =
     (if exponent = NaN then NaN
      else if is_zero exponent then Fin 1
      else pow_impl rt base exponent)"

definition Math_sqrt :: "runtime \<Rightarrow> jsnum \<Rightarrow> jsnum" where
  "Math_sqrt rt x =
     (if x = NaN \<or> is_zero x \<or> x = PInf then x
      else if is_neg x then NaN
      else sqrt_impl rt x)"

definition Math_PI :: jsnum where
  "Math_PI = Fin (884279719003555 / 281474976710656)"

fun ToNumber :: "runtime \<Rightarrow> jsval \<Rightarrow> jsnum" where
  "ToNumber rt Undefined = NaN"
| "ToNumber rt Null = Fin 0"
| "ToNumber rt (Bool b) = Fin (if b then 1 else 0)"
| "ToNumber rt (Num n) = n"
| "ToNumber rt v = ToNumber_impl rt v"

section \<open>Markers and popups\<close>

subsection \<open>\<open>getMarkerRadius\<close>\<close>

text \<open>
  \<open>magnitude\<close> is whatever \<open>properties.mag\<close> holds; the subtraction converts it to a
  number.
\<close>

definition getMarkerRadius :: "runtime \<Rightarrow> jsval \<Rightarrow> jsnum" where
  "getMarkerRadius rt magnitude =
     (let baseArea = Fin 10;
          scaleFactor = Fin (5 / 2);
          area =
            js_mul baseArea
              (Math_pow rt (Fin 10)
                 (js_div (js_sub (ToNumber rt magnitude) (Fin 1)) scaleFactor))
      in Math_sqrt rt (js_div area Math_PI))"

text \<open>
  A runtime whose two approximated functions are correctly rounded: the power for a
  finite base above one (the program's base is 10; for other bases not-a-number stands
  in), the square root for the positive finite arguments that reach it. The conversion
  of strings, arrays and objects is left to the argument.
\<close>

definition exact_rt :: "(jsval \<Rightarrow> jsnum) \<Rightarrow> runtime" where
  "exact_rt coerce =
     \<lparr> pow_impl = (\<lambda>base exponent.
          if base = NaN \<or> is_inf base \<or> val base \<le> 1 then NaN
          else if exponent = PInf then PInf
          else if exponent = NInf then Fin 0
          else fl (val base powr val exponent)),
       sqrt_impl = (\<lambda>x. fl (sqrt (val x))),
       ToNumber_impl = coerce \<rparr>"

subsection \<open>The formula of the specification\<close>

text \<open>
  The formula as the specification writes it, over the real numbers.
\<close>

definition radius_spec :: "real \<Rightarrow> real" where
  "radius_spec m = sqrt ((10 * 10 powr ((m - 1) / 2.5)) / pi)"

text \<open>
  The same formula in double arithmetic: the result of every operation, and \<open>\<pi>\<close>
  itself, is rounded to a double. \<open>rounded f a\<close> is the rounded value of \<open>f\<close> at a number
  \<open>a\<close> that is not negative, which for the increasing operations of the formula is
  \<open>+\<infinity>\<close> at \<open>+\<infinity>\<close>; \<open>nonneg_num\<close> are the numbers it is meant for.
\<close>

fun nonneg_num :: "jsnum \<Rightarrow> bool" where
  "nonneg_num PInf = True"
| "nonneg_num (Fin z) = (0 \<le> z)"
| "nonneg_num a = False"

definition rounded :: "(real \<Rightarrow> real) \<Rightarrow> jsnum \<Rightarrow> jsnum" where
  "rounded f a = (if a = PInf then PInf else fl (f (val a)))"

definition radius_rounded :: "real \<Rightarrow> jsnum" where
  "radius_rounded m =
     rounded sqrt
       (rounded (\<lambda>a. a / val (fl pi))
          (rounded (\<lambda>p. 10 * p)
             (fl (10 powr val (fl (val (fl (m - 1)) / (5 / 2)))))))"

subsection \<open>\<open>pointToLayer\<close>\<close>

text \<open>
  What \<open>L.circleMarker(latlng, {radius, color})\<close> is given, and the popup bound to the
  marker since (\<open>None\<close> for a new marker). The position is the pair the map widget
  computed for the feature.
\<close>

record circle_marker =
  latlng :: "jsnum \<times> jsnum"
  radius :: jsnum
  color :: string
  popup :: "string option"

definition pointToLayer ::
  "runtime \<Rightarrow> jsval \<Rightarrow> jsnum \<times> jsnum \<Rightarrow> js_error + circle_marker" where
  "pointToLayer rt feature position =
     (case get_prop feature ''properties'' of
        Inl e \<Rightarrow> Inl e
      | Inr properties \<Rightarrow>
          (case get_prop properties ''mag'' of
             Inl e \<Rightarrow> Inl e
           | Inr mag \<Rightarrow>
               Inr \<lparr> latlng = position, radius = getMarkerRadius rt mag, color = ''red'',
                     popup = None \<rparr>))"

subsection \<open>\<open>Popup\<close>\<close>

text \<open>
  What a component returns: literal text, the value of an expression in braces, or an
  element with its name, its properties and its children.
\<close>

datatype element =
    Text string
  | Expr jsval
  | Elem string "(string \<times> jsval) list" "element list"

text \<open>
  \<open>const [lon, lat, depth] = v\<close>: an array gives its first three entries, \<open>undefined\<close>
  for a missing one; a string iterates by character; every other value is not iterable.
\<close>

definition at_index :: "jsval list \<Rightarrow> nat \<Rightarrow> jsval" where
  "at_index xs i = (if i < length xs then xs ! i else Undefined)"

fun destructure3 :: "jsval \<Rightarrow> js_error + jsval \<times> jsval \<times> jsval" where
  "destructure3 (Arr xs) = Inr (at_index xs 0, at_index xs 1, at_index xs 2)"
| "destructure3 (Str s) =
     Inr (at_index (map (\<lambda>c. Str [c]) s) 0, at_index (map (\<lambda>c. Str [c]) s) 1,
          at_index (map (\<lambda>c. Str [c]) s) 2)"
| "destructure3 v = Inl TypeError"

definition bold :: "string \<Rightarrow> element" where
  "bold s = Elem ''span'' [(''style'', Obj [(''fontWeight'', Str ''bold'')])] [Text s]"

text \<open>
  \<open>function Popup({ properties, geometry })\<close>. The throws are the reads of
  \<open>geometry.coordinates\<close>, the destructuring and the reads of the fields of
  \<open>properties\<close>.
\<close>

definition Popup :: "jsval \<Rightarrow> jsval \<Rightarrow> js_error + element" where
  "Popup properties geometry =
     (case get_prop geometry ''coordinates'' of
        Inl e \<Rightarrow> Inl e
      | Inr coordinates \<Rightarrow>
     (case destructure3 coordinates of
        Inl e \<Rightarrow> Inl e
      | Inr (lon, lat, depth) \<Rightarrow>
     (case get_prop properties ''place'' of
        Inl e \<Rightarrow> Inl e
      | Inr place \<Rightarrow>
     (case get_prop properties ''mag'' of
        Inl e \<Rightarrow> Inl e
      | Inr mag \<Rightarrow>
     (case get_prop properties ''type'' of
        Inl e \<Rightarrow> Inl e
      | Inr type \<Rightarrow>
     (case get_prop properties ''url'' of
        Inl e \<Rightarrow> Inl e
      | Inr url \<Rightarrow>
          Inr (Elem ''Fragment'' []
            [Elem ''Typography'' [(''variant'', Str ''h2'')] [Expr place],
             Text '' '',
             Elem ''p'' []
               [bold ''MAGNITUDE'', Text '': '', Expr mag,
                Elem ''br'' [] [],
                bold ''DEPTH'', Text '': '', Expr depth, Text '' km'',
                Elem ''br'' [] [],
                bold ''TYPE'', Text '': '', Expr type,
                Elem ''br'' [] [],
                bold ''Lon/Lat'', Text '': '', Expr lon, Text '', '', Expr lat],
             Elem ''Typography'' [(''variant'', Str ''h3'')]
               [Elem ''Link''
                  [(''variant'', Str ''h3''), (''target'', Str ''_blank''), (''href'', url)]
                  [Text ''More info'']]])))))))"

subsection \<open>\<open>onEachFeature\<close>\<close>

text \<open>
  \<open><Popup {...feature} />\<close> hands the fields of the feature to \<open>Popup\<close>, which is
  called when \<open>renderToString\<close> renders the element; \<open>renderToString\<close> itself, the
  serialisation of the tree by the rendering library, is a parameter and may throw
  (an object among the children is refused). \<open>layer.bindPopup(html)\<close> stores the
  string in the marker.
\<close>

definition onEachFeature ::
  "(element \<Rightarrow> js_error + string) \<Rightarrow> jsval \<Rightarrow> circle_marker \<Rightarrow> js_error + circle_marker" where
  "onEachFeature renderToString feature layer =
     (case get_prop feature ''properties'' of
        Inl e \<Rightarrow> Inl e
      | Inr properties \<Rightarrow>
          if \<not> truthy properties then Inr layer
          else
            (case get_prop properties ''place'' of
               Inl e \<Rightarrow> Inl e
             | Inr place \<Rightarrow>
                 if \<not> truthy place then Inr layer
                 else
                   (case get_prop feature ''geometry'' of
                      Inl e \<Rightarrow> Inl e
                    | Inr geometry \<Rightarrow>
                        (case Popup properties geometry of
                           Inl e \<Rightarrow> Inl e
                         | Inr tree \<Rightarrow>
                             (case renderToString tree of
                                Inl e \<Rightarrow> Inl e
                              | Inr html \<Rightarrow> Inr (layer\<lparr>popup := Some html\<rparr>))))))"

section \<open>The component \<open>Map\<close>: state, filter buttons, effect\<close>

text \<open>
  The three \<open>useState\<close> cells of \<open>Map\<close>, and what the component has done to its
  surroundings: \<open>deps\<close> is the dependency array \<open>[minMag, timespan]\<close> React kept from the
  last run of the effect (\<open>None\<close> before the first), \<open>fetch_calls\<close> the URLs handed to
  \<open>fetchQuakeData\<close> in order, \<open>console\<close> the values handed to \<open>console.log\<close>, and
  \<open>unmounted\<close> tells that a render has thrown and the component is gone.
\<close>

record map_component =
  quakesJson :: jsval
  minMag :: string
  timespan :: string
  deps :: "(string \<times> string) option"
  fetch_calls :: "string list"
  console :: "js_error list"
  unmounted :: bool

definition BASE_URL :: string where
  "BASE_URL = ''https://earthquake.usgs.gov/earthquakes/feed/v1.0/summary/''"

text \<open>The \<open>onClick\<close> closures of the buttons: a call of one of the two state setters.\<close>

datatype setter_call = SetMinMag string | SetTimespan string

record button =
  key :: string
  variant :: string
  onClick :: setter_call
  disabled :: bool
  children :: "string list"

definition magnitude_buttons :: "map_component \<Rightarrow> button list" where
  "magnitude_buttons s =
     map (\<lambda>magnitude.
       \<lparr> key = magnitude,
         variant = (if minMag s = magnitude then ''contained'' else ''outlined''),
         onClick = SetMinMag magnitude,
         disabled = (timespan s = ''month'' \<and> (magnitude = ''all'' \<or> magnitude = ''1.0'')),
         children = [if magnitude = ''all'' then ''ALL'' else magnitude @ ''+'', '' ''] \<rparr>)
       [''all'', ''1.0'', ''2.5'', ''4.5'', ''significant'']"

text \<open>
  The time-window buttons are given no \<open>disabled\<close> property; the button component's
  default for it is \<open>false\<close>.
\<close>

definition timespan_buttons :: "map_component \<Rightarrow> button list" where
  "timespan_buttons s =
     map (\<lambda>intervall.
       \<lparr> key = intervall,
         variant = (if timespan s = intervall then ''contained'' else ''outlined''),
         onClick = SetTimespan intervall,
         disabled = False,
         children =
           [if intervall = ''hour'' then ''LAST HOUR''
            else if intervall = ''day'' then ''LAST DAY''
            else if intervall = ''week'' then ''LAST 7 DAYS''
            else ''LAST 30 DAYS'', '' ''] \<rparr>)
       [''hour'', ''day'', ''week'', ''month'']"

fun setState :: "setter_call \<Rightarrow> map_component \<Rightarrow> map_component" where
  "setState (SetMinMag magnitude) s = s\<lparr>minMag := magnitude\<rparr>"
| "setState (SetTimespan intervall) s = s\<lparr>timespan := intervall\<rparr>"

text \<open>
  \<open>useEffect(() => { const url = ...; fetchQuakeData(url); }, [minMag, timespan])\<close>:
  after a render React runs the effect when there was no earlier run or a dependency
  differs from the one kept; the effect builds the URL and calls \<open>fetchQuakeData\<close>.
\<close>

definition useEffect :: "map_component \<Rightarrow> map_component" where
  "useEffect s =
     (if deps s = Some (minMag s, timespan s) then s
      else
        let url = BASE_URL @ ''/'' @ minMag s @ ''_'' @ timespan s @ ''.geojson''
        in s\<lparr>deps := Some (minMag s, timespan s), fetch_calls := fetch_calls s @ [url]\<rparr>)"

text \<open>The first render: the initial values of the three cells, then the effect.\<close>

definition mount :: map_component where
  "mount =
     useEffect \<lparr> quakesJson = Arr [], minMag = ''2.5'', timespan = ''week'',
       deps = None, fetch_calls = [], console = [], unmounted = False \<rparr>"

text \<open>
  A click on a rendered button: a disabled button does not call its handler; otherwise
  the handler sets the state, the component renders again and the effect is checked.
  (The handlers leave \<open>quakesJson\<close> alone, so this render reads what the render that
  showed the button read.)
\<close>

definition click :: "button \<Rightarrow> map_component \<Rightarrow> map_component" where
  "click b s = (if disabled b then s else useEffect (setState (onClick b) s))"

subsection \<open>\<open>fetchQuakeData\<close>\<close>

text \<open>
  What the two awaited promises of \<open>fetchQuakeData\<close> can settle to: \<open>fetch(url)\<close>
  rejects, or resolves to a response with its \<open>ok\<close> flag, whose \<open>json()\<close> rejects (the
  body is not JSON) or resolves to the parsed value.
\<close>

record response =
  ok :: bool
  json :: "js_error + jsval"

datatype fetch_outcome = Rejected js_error | Resolved response

text \<open>The \<open>try\<close> block: the value handed to \<open>setQuakesJson\<close>, or what was thrown.\<close>

definition fetchQuakeData_try :: "string \<Rightarrow> fetch_outcome \<Rightarrow> js_error + jsval" where
  "fetchQuakeData_try url outcome =
     (case outcome of
        Rejected e \<Rightarrow> Inl e
      | Resolved resp \<Rightarrow>
          if \<not> ok resp then Inl (Error (''Error fetching data from '' @ url))
          else (case json resp of
                  Inl e \<Rightarrow> Inl e
                | Inr data \<Rightarrow> get_prop data ''features''))"

text \<open>
  The whole function: how its promise settles (\<open>Inl\<close> a rejection) and the component
  afterwards. The \<open>catch\<close> clause hands the error to \<open>console.log\<close>.
\<close>

definition fetchQuakeData ::
  "string \<Rightarrow> fetch_outcome \<Rightarrow> map_component \<Rightarrow> (js_error + unit) \<times> map_component" where
  "fetchQuakeData url outcome s =
     (case fetchQuakeData_try url outcome of
        Inr features \<Rightarrow> (Inr (), s\<lparr>quakesJson := features\<rparr>)
      | Inl error \<Rightarrow> (Inr (), s\<lparr>console := console s @ [error]\<rparr>))"

subsection \<open>The render after a fetch\<close>

text \<open>
  The body of \<open>Map\<close> reads \<open>quakesJson.length\<close>, the key of the layer of markers. An
  array and a string have a length of their own, an object has one if it has such a
  field; on \<open>undefined\<close> and \<open>null\<close> the read throws.
\<close>

fun get_length :: "jsval \<Rightarrow> js_error + jsval" where
  "get_length Undefined = Inl TypeError"
| "get_length Null = Inl TypeError"
| "get_length (Arr xs) = Inr (Num (Fin (real (length xs))))"
| "get_length (Str s) = Inr (Num (Fin (real (length s))))"
| "get_length (Obj kvs) = Inr (field kvs ''length'')"
| "get_length v = Inr Undefined"

text \<open>What the body of \<open>Map\<close> returns: the two rows of buttons and the key of the layer.\<close>

definition Map_body :: "map_component \<Rightarrow> js_error + button list \<times> button list \<times> jsval" where
  "Map_body s =
     (case get_length (quakesJson s) of
        Inl e \<Rightarrow> Inl e
      | Inr layer_key \<Rightarrow> Inr (magnitude_buttons s, timespan_buttons s, layer_key))"

text \<open>
  A render after a state change. The component has no error boundary around it: when
  its body throws, React removes it and no effect runs; otherwise the effect is checked.
\<close>

definition rerender :: "map_component \<Rightarrow> map_component" where
  "rerender s =
     (case Map_body s of
        Inl e \<Rightarrow> s\<lparr>unmounted := True\<rparr>
      | Inr ui \<Rightarrow> useEffect s)"

subsection \<open>Runs of the component\<close>

text \<open>
  What happens to a mounted component: the user clicks the magnitude button or the
  time-window button of a given key, or a pending \<open>fetchQuakeData(url)\<close> settles and the
  component renders again. Once the component is gone there is no button to click, and
  a fetch that settles can only write to the console: the state setter of a removed
  component does nothing.
\<close>

datatype event =
    ClickMagnitude string
  | ClickTimespan string
  | Settle string fetch_outcome

fun step :: "event \<Rightarrow> map_component \<Rightarrow> map_component" where
  "step (ClickMagnitude k) s =
     (if unmounted s then s
      else
        (case find (\<lambda>b. key b = k) (magnitude_buttons s) of
           None \<Rightarrow> s
         | Some b \<Rightarrow> click b s))"
| "step (ClickTimespan k) s =
     (if unmounted s then s
      else
        (case find (\<lambda>b. key b = k) (timespan_buttons s) of
           None \<Rightarrow> s
         | Some b \<Rightarrow> click b s))"
| "step (Settle url outcome) s =
     (if unmounted s then s\<lparr>console := console (snd (fetchQuakeData url outcome s))\<rparr>
      else rerender (snd (fetchQuakeData url outcome s)))"

definition run :: "event list \<Rightarrow> map_component" where
  "run es = fold step es mount"

section \<open>Rounding is monotone\<close>

lemma ilog2_bounds:
  "0 < x \<Longrightarrow> 2 powi ilog2 x \<le> x \<and> x < 2 powi (ilog2 x + 1)"
proof (induction x rule: ilog2.induct)
  case (1 x)
  show ?case
  proof (cases "2 \<le> x")
    case True
    then have e: "ilog2 x = ilog2 (x / 2) + 1" using 1(3) by (subst ilog2.simps) simp
    have "2 powi ilog2 (x / 2) \<le> x / 2 \<and> x / 2 < 2 powi (ilog2 (x / 2) + 1)"
      using 1(1) True 1(3) by simp
    then show ?thesis unfolding e by (simp add: power_int_add)
  next
    case False
    show ?thesis
    proof (cases "x < 1")
      case True
      then have e: "ilog2 x = ilog2 (2 * x) - 1" using 1(3) False by (subst ilog2.simps) simp
      have "2 powi ilog2 (2 * x) \<le> 2 * x \<and> 2 * x < 2 powi (ilog2 (2 * x) + 1)"
        using 1(2) True False 1(3) by simp
      then show ?thesis unfolding e by (simp add: power_int_add power_int_diff)
    next
      case False2: False
      then have e: "ilog2 x = 0" using 1(3) False by (subst ilog2.simps) simp
      show ?thesis unfolding e using False False2 by simp
    qed
  qed
qed

lemma ilog2_mono: "0 < x \<Longrightarrow> x \<le> y \<Longrightarrow> ilog2 x \<le> ilog2 y"
proof (rule ccontr)
  assume x: "0 < x" "x \<le> y" and "\<not> ilog2 x \<le> ilog2 y"
  then have "ilog2 y + 1 \<le> ilog2 x" by simp
  then have "(2::real) powi (ilog2 y + 1) \<le> 2 powi ilog2 x"
    by (intro power_int_increasing) auto
  moreover have "2 powi ilog2 x \<le> x" using ilog2_bounds x by simp
  moreover have "y < 2 powi (ilog2 y + 1)" using ilog2_bounds [of y] x by simp
  ultimately show False using x by linarith
qed

lemma rne_of_int [simp]: "rne (of_int n) = n"
  by (simp add: rne_def)

lemma rne_numeral [simp]: "rne (numeral k) = numeral k"
  using rne_of_int [of "numeral k"] by (simp del: rne_of_int)

lemma rne_0 [simp]: "rne 0 = 0"
  using rne_of_int [of 0] by (simp del: rne_of_int)

lemma rne_1 [simp]: "rne 1 = 1"
  using rne_of_int [of 1] by (simp del: rne_of_int)

lemma rne_bounds: "\<lfloor>x\<rfloor> \<le> rne x \<and> rne x \<le> \<lfloor>x\<rfloor> + 1"
  by (simp add: rne_def Let_def)

lemma rne_mono: "x \<le> y \<Longrightarrow> rne x \<le> rne y"
proof -
  assume xy: "x \<le> y"
  then have f: "\<lfloor>x\<rfloor> \<le> \<lfloor>y\<rfloor>" by (rule floor_mono)
  show ?thesis
  proof (cases "\<lfloor>x\<rfloor> = \<lfloor>y\<rfloor>")
    case True
    then show ?thesis using xy by (auto simp: rne_def Let_def)
  next
    case False
    then have "\<lfloor>x\<rfloor> + 1 \<le> \<lfloor>y\<rfloor>" using f by simp
    then show ?thesis using rne_bounds [of x] rne_bounds [of y] by linarith
  qed
qed

lemma quantum_pos: "0 < quantum x"
  by (simp add: quantum_def)

lemma expo_mono: "0 < x \<Longrightarrow> x \<le> y \<Longrightarrow> expo x \<le> expo y"
  using ilog2_mono [of x y] by (simp add: expo_def)

lemma round_mag_nonneg: "0 \<le> x \<Longrightarrow> 0 \<le> round_mag x"
proof -
  assume "0 \<le> x"
  then have "0 \<le> x / quantum x" using quantum_pos [of x] by simp
  then have "rne 0 \<le> rne (x / quantum x)" by (rule rne_mono)
  then have "0 \<le> rne (x / quantum x)" by (simp add: rne_def)
  then show ?thesis using quantum_pos [of x] by (simp add: round_mag_def)
qed

lemma round_mag_upper:
  assumes "0 < x"
  shows "round_mag x \<le> 2 powi (expo x + 1)"
proof -
  have "x < 2 powi (ilog2 x + 1)" using ilog2_bounds assms by simp
  also have "\<dots> \<le> 2 powi (expo x + 1)"
    by (intro power_int_increasing) (auto simp: expo_def)
  finally have "x / quantum x \<le> 2 powi (expo x + 1) / quantum x"
    using quantum_pos [of x] by (simp add: divide_right_mono)
  also have "2 powi (expo x + 1) / quantum x = of_int (2 ^ 53)"
    by (simp add: quantum_def power_int_diff power_int_add)
  finally have "rne (x / quantum x) \<le> rne (of_int (2 ^ 53))" by (rule rne_mono)
  then have "of_int (rne (x / quantum x)) * quantum x \<le> of_int (2 ^ 53) * quantum x"
    using quantum_pos [of x] by (simp del: of_int_power of_int_numeral)
  also have "of_int (2 ^ 53) * quantum x = 2 powi (expo x + 1)"
    by (simp add: quantum_def power_int_diff power_int_add)
  finally show ?thesis by (simp add: round_mag_def)
qed

lemma round_mag_lower:
  assumes "0 < x" and "- 1022 < expo x"
  shows "2 powi expo x \<le> round_mag x"
proof -
  have e: "expo x = ilog2 x" using assms(2) by (simp add: expo_def max_def split: if_splits)
  have "2 powi expo x \<le> x" using ilog2_bounds assms(1) e by simp
  then have "2 powi expo x / quantum x \<le> x / quantum x"
    using quantum_pos [of x] by (simp add: divide_right_mono)
  moreover have "2 powi expo x / quantum x = of_int (2 ^ 52)"
    by (simp add: quantum_def power_int_diff)
  ultimately have "rne (of_int (2 ^ 52)) \<le> rne (x / quantum x)"
    using rne_mono by metis
  then have "of_int (2 ^ 52) * quantum x \<le> of_int (rne (x / quantum x)) * quantum x"
    using quantum_pos [of x] by (simp del: of_int_power of_int_numeral)
  moreover have "of_int (2 ^ 52) * quantum x = 2 powi expo x"
    by (simp add: quantum_def power_int_diff)
  ultimately show ?thesis by (simp add: round_mag_def)
qed

lemma round_mag_mono:
  assumes "0 \<le> x" and "x \<le> y"
  shows "round_mag x \<le> round_mag y"
proof (cases "x = 0")
  case True
  have "round_mag 0 = 0" by (simp add: round_mag_def rne_def)
  then show ?thesis using True round_mag_nonneg [of y] assms by simp
next
  case False
  then have x: "0 < x" using assms by simp
  then have y: "0 < y" using assms by simp
  have le: "expo x \<le> expo y" using expo_mono x assms by simp
  show ?thesis
  proof (cases "expo x = expo y")
    case True
    then have q: "quantum x = quantum y" by (simp add: quantum_def)
    have "x / quantum y \<le> y / quantum y"
      using quantum_pos [of y] assms by (simp add: divide_right_mono)
    then have "rne (x / quantum y) \<le> rne (y / quantum y)" by (rule rne_mono)
    then show ?thesis using quantum_pos [of y] by (simp add: round_mag_def q)
  next
    case False
    then have lt: "expo x + 1 \<le> expo y" using le by simp
    have "- 1022 \<le> expo x" by (simp add: expo_def)
    then have "- 1022 < expo y" using lt by simp
    then have "2 powi expo y \<le> round_mag y" using round_mag_lower y by simp
    moreover have "round_mag x \<le> 2 powi (expo x + 1)" using round_mag_upper x by simp
    moreover have "(2::real) powi (expo x + 1) \<le> 2 powi expo y"
      using lt by (intro power_int_increasing) auto
    ultimately show ?thesis by linarith
  qed
qed



lemma js_le_szero [simp]:
  "js_le (szero n) (szero m)" "js_le (Fin 0) (szero m)" "js_le (szero m) (Fin 0)"
  by (auto simp: szero_def js_le_def)

lemma fl_not_NaN [simp]: "fl x \<noteq> NaN"
  by (simp add: fl_def with_sign_def)

lemma szero_not_NaN [simp]: "szero n \<noteq> NaN"
  by (simp add: szero_def)

lemma sinf_not_NaN [simp]: "sinf n \<noteq> NaN"
  by (simp add: sinf_def)






lemma ilog2_eq:
  assumes "2 powi e \<le> x" and "x < 2 powi (e + 1)"
  shows "ilog2 x = e"
proof -
  have "0 < (2::real) powi e" by simp
  then have x: "0 < x" using assms(1) by linarith
  have b: "2 powi ilog2 x \<le> x" "x < 2 powi (ilog2 x + 1)" using ilog2_bounds x by simp_all
  have "\<not> ilog2 x < e"
  proof
    assume "ilog2 x < e"
    then have "(2::real) powi (ilog2 x + 1) \<le> 2 powi e" by (intro power_int_increasing) auto
    then show False using b assms by linarith
  qed
  moreover have "\<not> e < ilog2 x"
  proof
    assume "e < ilog2 x"
    then have "(2::real) powi (e + 1) \<le> 2 powi ilog2 x" by (intro power_int_increasing) auto
    then show False using b assms by linarith
  qed
  ultimately show ?thesis by simp
qed

lemma fl_10: "fl 10 = Fin 10"
proof -
  have "ilog2 10 = 3" by (rule ilog2_eq) simp_all
  then show ?thesis
    by (simp add: fl_def with_sign_def round_mag_def quantum_def expo_def power_int_minus)
qed



text \<open>The constants of the program are doubles.\<close>

lemma fl_double_consts:
  "fl (884279719003555 / 281474976710656) = Math_PI" "fl (5 / 2) = Fin (5 / 2)"
proof -
  have "ilog2 (884279719003555 / 281474976710656) = 1" by (rule ilog2_eq) simp_all
  then show "fl (884279719003555 / 281474976710656) = Math_PI"
    by (simp add: fl_def with_sign_def round_mag_def quantum_def expo_def power_int_minus
        Math_PI_def)
  have "ilog2 (5 / 2) = 1" by (rule ilog2_eq) simp_all
  then show "fl (5 / 2) = Fin (5 / 2)"
    by (simp add: fl_def with_sign_def round_mag_def quantum_def expo_def power_int_minus)
qed

section \<open>The marker radius\<close>

lemma fl_1: "fl 1 = Fin 1"
proof -
  have "ilog2 1 = 0" by (rule ilog2_eq) simp_all
  then show ?thesis
    by (simp add: fl_def with_sign_def round_mag_def quantum_def expo_def power_int_minus)
qed




lemma fl_minus_2: "fl (- 2) = Fin (- 2)"
proof -
  have "ilog2 2 = 1" by (rule ilog2_eq) simp_all
  then show ?thesis
    by (simp add: fl_def with_sign_def round_mag_def quantum_def expo_def power_int_minus)
qed

lemma fl_minus_4_5: "fl (- 4 / 5) = Fin (- 3602879701896397 / 4503599627370496)"
proof -
  have "ilog2 (4 / 5) = - 1" by (rule ilog2_eq) (simp_all add: power_int_minus)
  then show ?thesis
    by (simp add: fl_def with_sign_def round_mag_def quantum_def expo_def power_int_minus
        rne_def Let_def)
qed

lemma fl_0: "fl 0 = Fin 0"
  by (simp add: fl_def with_sign_def round_mag_def)

lemma ilog2_less:
  assumes "0 < x" and "x < 2 powi n"
  shows "ilog2 x < n"
proof (rule ccontr)
  assume "\<not> ilog2 x < n"
  then have "(2::real) powi n \<le> 2 powi ilog2 x" by (intro power_int_increasing) auto
  moreover have "2 powi ilog2 x \<le> x" using ilog2_bounds assms(1) by simp
  ultimately show False using assms(2) by linarith
qed

lemma is_inf_with_sign: "r < 2 ^ 1024 \<Longrightarrow> is_inf (with_sign neg r) = False"
  by (simp add: with_sign_def)

lemma fl_finite:
  assumes "\<bar>y\<bar> < 2 ^ 1023"
  shows "is_inf (fl y) = False"
proof (cases "y = 0")
  case True
  then show ?thesis by (simp add: fl_0)
next
  case False
  then have x: "0 < \<bar>y\<bar>" by simp
  have "\<bar>y\<bar> < 2 powi 1023" using assms by simp
  then have "ilog2 \<bar>y\<bar> < 1023" using ilog2_less x by blast
  then have e: "expo \<bar>y\<bar> + 1 \<le> 1023" by (simp add: expo_def)
  have "round_mag \<bar>y\<bar> \<le> 2 powi (expo \<bar>y\<bar> + 1)" using round_mag_upper x by simp
  also have "\<dots> \<le> 2 powi 1023" using e by (intro power_int_increasing) auto
  also have "\<dots> < 2 ^ 1024" by simp
  finally show ?thesis unfolding fl_def by (rule is_inf_with_sign)
qed

lemma fl_finite_val:
  assumes "is_inf (fl y) = False"
  shows "\<bar>val (fl y)\<bar> < 2 ^ 1024"
  using assms round_mag_nonneg [of "\<bar>y\<bar>"]
  by (auto simp: fl_def with_sign_def split: if_splits)

lemma fl_overflow:
  assumes "2 ^ 1024 \<le> y"
  shows "fl y = PInf"
proof -
  have "0 < (2::real) ^ 1024" by simp
  then have y: "0 < y" using assms by linarith
  have "ilog2 (2 ^ 1024) = 1024" by (rule ilog2_eq) simp_all
  then have "1024 \<le> ilog2 y" using ilog2_mono [of "2 ^ 1024" y] assms by simp
  then have e: "1024 \<le> expo y" by (simp add: expo_def)
  then have "2 powi expo y \<le> round_mag y" using round_mag_lower y by simp
  moreover have "(2::real) powi 1024 \<le> 2 powi expo y"
    using e by (intro power_int_increasing) auto
  ultimately have "2 ^ 1024 \<le> round_mag y" by simp
  then show ?thesis using y by (simp add: fl_def with_sign_def)
qed

lemma double_round_mag:
  assumes "fl r = Fin r"
  shows "round_mag \<bar>r\<bar> = \<bar>r\<bar> \<and> \<bar>r\<bar> < 2 ^ 1024"
  using assms round_mag_nonneg [of "\<bar>r\<bar>"]
  by (auto simp: fl_def with_sign_def split: if_splits)

lemma double_bound:
  assumes "fl r = Fin r"
  shows "\<bar>r\<bar> \<le> (2 ^ 53 - 1) * 2 ^ 971"
proof (cases "r = 0")
  case True
  then show ?thesis by simp
next
  case False
  define x where "x = \<bar>r\<bar>"
  have x: "0 < x" using False by (simp add: x_def)
  have rm: "round_mag x = x" and lt: "x < 2 ^ 1024"
    using double_round_mag [OF assms] by (simp_all add: x_def)
  show ?thesis
  proof (cases "expo x \<le> 1022")
    case True
    have "x < 2 powi (ilog2 x + 1)" using ilog2_bounds x by simp
    also have "\<dots> \<le> 2 powi 1023"
      using True by (intro power_int_increasing) (auto simp: expo_def)
    also have "\<dots> \<le> (2 ^ 53 - 1) * 2 ^ 971" by simp
    finally show ?thesis by (simp add: x_def)
  next
    case False
    then have e: "1023 \<le> expo x" by simp
    then have il: "expo x = ilog2 x" by (simp add: expo_def max_def split: if_splits)
    have "x < 2 powi 1024" using lt by simp
    then have "ilog2 x < 1024" using ilog2_less x by blast
    then have e1023: "expo x = 1023" using e il by simp
    then have q: "quantum x = 2 ^ 971" by (simp add: quantum_def)
    define n where "n = rne (x / quantum x)"
    have xn: "x = of_int n * 2 ^ 971" using rm by (simp add: round_mag_def n_def q)
    have "of_int n * (2::real) ^ 971 < 2 ^ 53 * 2 ^ 971" using lt xn by simp
    then have "(of_int n :: real) < 2 ^ 53" by simp
    then have "(of_int n :: real) < of_int (2 ^ 53)" by simp
    then have "n < 2 ^ 53" by (rule of_int_less_iff [THEN iffD1])
    then have "n \<le> 2 ^ 53 - 1" by simp
    then have "(of_int n :: real) \<le> of_int (2 ^ 53 - 1)" by (rule of_int_le_iff [THEN iffD2])
    then have "(of_int n :: real) \<le> 2 ^ 53 - 1" by simp
    then have "of_int n * (2::real) ^ 971 \<le> (2 ^ 53 - 1) * 2 ^ 971"
      by (intro mult_right_mono) simp_all
    then show ?thesis using xn by (simp add: x_def)
  qed
qed

lemma round_mag_max_plus_1: "round_mag ((2 ^ 53 - 1) * 2 ^ 971 + 1) = (2 ^ 53 - 1) * 2 ^ 971"
proof -
  have "ilog2 ((2 ^ 53 - 1) * 2 ^ 971 + 1) = 1023" by (rule ilog2_eq) simp_all
  then show ?thesis
    by (simp add: round_mag_def quantum_def expo_def rne_def Let_def)
qed

lemma fl_pred_finite:
  assumes "fl r = Fin r" and "\<bar>c\<bar> \<le> 1"
  shows "is_inf (fl (r - c)) = False"
proof -
  have "\<bar>r - c\<bar> \<le> (2 ^ 53 - 1) * 2 ^ 971 + 1"
    using double_bound [OF assms(1)] assms(2) by linarith
  then have "round_mag \<bar>r - c\<bar> \<le> round_mag ((2 ^ 53 - 1) * 2 ^ 971 + 1)"
    by (intro round_mag_mono) simp_all
  then have "round_mag \<bar>r - c\<bar> < 2 ^ 1024" unfolding round_mag_max_plus_1 by simp
  then show ?thesis unfolding fl_def by (rule is_inf_with_sign)
qed

text \<open>The correctly rounded runtime has a monotone, non-negative power and a monotone root.\<close>

lemma exact_pow_10:
  "Math_pow (exact_rt c) (Fin 10) x =
     (if x = NaN then NaN else if x = PInf then PInf else if x = NInf then Fin 0
      else fl (10 powr val x))"
  by (cases x) (simp_all add: Math_pow_def exact_rt_def fl_1)





text \<open>\<open>Math.PI\<close> is the double nearest to \<open>\<pi>\<close>, by Machin's formula.\<close>

lemma arctan_partial_sums:
  fixes x :: real
  assumes "0 \<le> x" and "x \<le> 1"
  shows "(\<Sum>i<2 * n. (- 1) ^ i * (1 / real (i * 2 + 1) * x ^ (i * 2 + 1))) \<le> arctan x"
    and "arctan x \<le> (\<Sum>i<2 * n + 1. (- 1) ^ i * (1 / real (i * 2 + 1) * x ^ (i * 2 + 1)))"
proof -
  let ?a = "\<lambda>n. 1 / real (n * 2 + 1) * x ^ (n * 2 + 1)"
  have ax: "\<bar>x\<bar> \<le> 1" using assms by simp
  have z: "?a \<longlonglongrightarrow> 0" by (rule zeroseq_arctan_series [OF ax])
  have p: "0 \<le> ?a k" for k using assms by simp
  have m: "?a (Suc k) \<le> ?a k" for k
  proof -
    have "x ^ (Suc k * 2 + 1) \<le> x ^ (k * 2 + 1)"
      using assms by (intro power_decreasing) simp_all
    moreover have "1 / real (Suc k * 2 + 1) \<le> 1 / real (k * 2 + 1)"
      by (intro divide_left_mono) simp_all
    ultimately show ?thesis using assms by (intro mult_mono) simp_all
  qed
  show "(\<Sum>i<2 * n. (- 1) ^ i * ?a i) \<le> arctan x"
    unfolding arctan_series [OF ax] by (rule summable_Leibniz'(2) [OF z p m])
  show "arctan x \<le> (\<Sum>i<2 * n + 1. (- 1) ^ i * ?a i)"
    unfolding arctan_series [OF ax] by (rule summable_Leibniz'(4) [OF z p m])
qed

lemma machin_mono:
  fixes l u A B :: real
  shows "l \<le> A \<Longrightarrow> B \<le> u \<Longrightarrow> 4 * (4 * l - u) \<le> 4 * (4 * A - B)"
  by simp

lemma pi_lower: "884279719003555 / 281474976710656 - 1 / 2 ^ 52 < pi"
proof -
  define L where
    "L = (\<Sum>i<2 * 6. (- 1) ^ i * (1 / real (i * 2 + 1) * (1 / 5 :: real) ^ (i * 2 + 1)))"
  define U where
    "U = (\<Sum>i<2 * 2 + 1. (- 1) ^ i * (1 / real (i * 2 + 1) * (1 / 239 :: real) ^ (i * 2 + 1)))"
  have a: "L \<le> arctan (1 / 5)" unfolding L_def by (rule arctan_partial_sums) simp_all
  have b: "arctan (1 / 239) \<le> U" unfolding U_def by (rule arctan_partial_sums) simp_all
  have "884279719003555 / 281474976710656 - 1 / 2 ^ 52 < 4 * (4 * L - U)"
    unfolding L_def U_def by (simp add: eval_nat_numeral)
  also have "\<dots> \<le> 4 * (4 * arctan (1 / 5) - arctan (1 / 239))"
    by (rule machin_mono [OF a b])
  also have "\<dots> = pi" using machin by simp
  finally show ?thesis .
qed

lemma pi_upper: "pi < 884279719003555 / 281474976710656 + 1 / 2 ^ 52"
proof -
  define U where
    "U = (\<Sum>i<2 * 6 + 1. (- 1) ^ i * (1 / real (i * 2 + 1) * (1 / 5 :: real) ^ (i * 2 + 1)))"
  define L where
    "L = (\<Sum>i<2 * 2. (- 1) ^ i * (1 / real (i * 2 + 1) * (1 / 239 :: real) ^ (i * 2 + 1)))"
  have a: "arctan (1 / 5) \<le> U" unfolding U_def by (rule arctan_partial_sums) simp_all
  have b: "L \<le> arctan (1 / 239)" unfolding L_def by (rule arctan_partial_sums) simp_all
  have "pi = 4 * (4 * arctan (1 / 5) - arctan (1 / 239))" using machin by simp
  also have "\<dots> \<le> 4 * (4 * U - L)" by (rule machin_mono [OF a b])
  also have "\<dots> < 884279719003555 / 281474976710656 + 1 / 2 ^ 52"
    unfolding L_def U_def by (simp add: eval_nat_numeral)
  finally show ?thesis .
qed

lemma rne_eqI:
  assumes "of_int n - 1 / 2 < x" and "x < of_int n + 1 / 2"
  shows "rne x = n"
proof (cases "of_int n \<le> x")
  case True
  then have f: "\<lfloor>x\<rfloor> = n" using assms by (intro floor_unique) linarith+
  show ?thesis using assms by (simp add: rne_def f)
next
  case False
  then have f: "\<lfloor>x\<rfloor> = n - 1" using assms by (intro floor_unique) (simp; linarith)+
  show ?thesis using assms False by (simp add: rne_def f)
qed

lemma Math_PI_nearest: "Math_PI = fl pi"
proof -
  have "ilog2 pi = 1" using pi_ge_two pi_less_4 by (intro ilog2_eq) simp_all
  then have q: "quantum pi = 1 / 2 ^ 51" by (simp add: quantum_def expo_def power_int_minus divide_simps)
  have "rne (pi * 2 ^ 51) = 7074237752028440"
    using pi_lower pi_upper by (intro rne_eqI) (simp_all add: field_simps)
  then have "round_mag pi = 884279719003555 / 281474976710656"
    by (simp add: round_mag_def q)
  then show ?thesis by (simp add: fl_def with_sign_def Math_PI_def)
qed

text \<open>With correctly rounded functions the code computes the rounded formula.\<close>

lemma nonneg_fl: "0 \<le> y \<Longrightarrow> nonneg_num (fl y)"
  using round_mag_nonneg [of "\<bar>y\<bar>"] by (auto simp: fl_def with_sign_def)

lemma nonneg_rounded:
  assumes "\<And>z. 0 \<le> z \<Longrightarrow> 0 \<le> f z" and "nonneg_num a"
  shows "nonneg_num (rounded f a)"
  using assms by (cases a) (simp_all add: rounded_def nonneg_fl)

lemma js_mul_rounded: "nonneg_num a \<Longrightarrow> js_mul (Fin 10) a = rounded (\<lambda>p. 10 * p) a"
  by (cases a) (auto simp: js_mul_def rounded_def sinf_def szero_def fl_0)

lemma js_div_rounded:
  "nonneg_num a \<Longrightarrow> js_div a Math_PI = rounded (\<lambda>a. a / val (fl pi)) a"
  unfolding Math_PI_nearest [symmetric]
  by (cases a) (auto simp: js_div_def rounded_def sinf_def szero_def fl_0 Math_PI_def)

lemma exact_sqrt_rounded: "nonneg_num a \<Longrightarrow> Math_sqrt (exact_rt c) a = rounded sqrt a"
  by (cases a) (auto simp: Math_sqrt_def rounded_def exact_rt_def fl_0)

lemma exponent_of_double:
  assumes "fl r = Fin r"
  shows "js_div (js_sub (Fin r) (Fin 1)) (Fin (5 / 2)) \<noteq> NaN \<and>
         is_inf (js_div (js_sub (Fin r) (Fin 1)) (Fin (5 / 2))) = False \<and>
         val (js_div (js_sub (Fin r) (Fin 1)) (Fin (5 / 2))) =
           val (fl (val (fl (r - 1)) / (5 / 2)))"
proof -
  have s: "js_sub (Fin r) (Fin 1) = fl (r - 1)"
    by (auto simp: js_sub_def szero_def fl_0)
  have f1: "is_inf (fl (r - 1)) = False" using fl_pred_finite [OF assms, of 1] by simp
  then have "\<bar>val (fl (r - 1))\<bar> < 2 ^ 1024" by (rule fl_finite_val)
  then have "\<bar>val (fl (r - 1)) / (5 / 2)\<bar> < 2 ^ 1023" by (simp add: abs_divide)
  then have f2: "is_inf (fl (val (fl (r - 1)) / (5 / 2))) = False" by (rule fl_finite)
  have z: "val (fl (val a / (5 / 2))) = 0" if "is_zero a" for a
    using that by (cases a) (simp_all add: fl_0)
  show ?thesis
    unfolding s using f1 f2 z [of "fl (r - 1)"]
    by (auto simp: js_div_def szero_def)
qed

lemma exact_radius:
  assumes "fl r = Fin r"
  shows "getMarkerRadius (exact_rt c) (Num (Fin r)) = radius_rounded r"
proof -
  define x where "x = js_div (js_sub (Fin r) (Fin 1)) (Fin (5 / 2))"
  have x: "x \<noteq> NaN" "is_inf x = False" "val x = val (fl (val (fl (r - 1)) / (5 / 2)))"
    using exponent_of_double [OF assms] by (simp_all add: x_def)
  have p: "Math_pow (exact_rt c) (Fin 10) x = fl (10 powr val x)"
    using x(1,2) unfolding exact_pow_10 by (cases x) simp_all
  have p0: "nonneg_num (fl (10 powr val x))" by (rule nonneg_fl) simp
  have a0: "nonneg_num (rounded (\<lambda>p. 10 * p) (fl (10 powr val x)))"
    by (rule nonneg_rounded [OF _ p0]) simp
  have d0: "nonneg_num (rounded (\<lambda>a. a / val (fl pi))
      (rounded (\<lambda>p. 10 * p) (fl (10 powr val x))))"
    by (rule nonneg_rounded [OF _ a0]) (simp add: Math_PI_nearest [symmetric] Math_PI_def)
  have "getMarkerRadius (exact_rt c) (Num (Fin r)) =
      Math_sqrt (exact_rt c) (js_div (js_mul (Fin 10) (fl (10 powr val x))) Math_PI)"
    by (simp add: getMarkerRadius_def x_def [symmetric] p)
  also have "\<dots> = rounded sqrt (rounded (\<lambda>a. a / val (fl pi))
      (rounded (\<lambda>p. 10 * p) (fl (10 powr val x))))"
    by (simp only: js_mul_rounded [OF p0] js_div_rounded [OF a0] exact_sqrt_rounded [OF d0])
  finally show ?thesis by (simp add: radius_rounded_def x(3))
qed

lemma fl_1000: "fl 1000 = Fin 1000"
proof -
  have "ilog2 1000 = 9" by (rule ilog2_eq) simp_all
  then show ?thesis
    by (simp add: fl_def with_sign_def round_mag_def quantum_def expo_def power_int_minus)
qed

lemma fl_999: "fl 999 = Fin 999"
proof -
  have "ilog2 999 = 9" by (rule ilog2_eq) simp_all
  then show ?thesis
    by (simp add: fl_def with_sign_def round_mag_def quantum_def expo_def power_int_minus)
qed

lemma fl_1998_5: "fl (1998 / 5) = Fin (3514918771674317 / 8796093022208)"
proof -
  have "ilog2 (1998 / 5) = 8" by (rule ilog2_eq) simp_all
  then show ?thesis
    by (simp add: fl_def with_sign_def round_mag_def quantum_def expo_def power_int_minus
        rne_def Let_def)
qed

lemma radius_rounded_1000: "radius_rounded 1000 = PInf"
proof -
  have "(2::real) ^ 1024 \<le> 10 ^ 399" by simp
  also have "\<dots> = 10 powr 399" by simp
  also have "\<dots> \<le> 10 powr (3514918771674317 / 8796093022208)"
    by (intro powr_mono) simp_all
  finally have "fl (10 powr (3514918771674317 / 8796093022208)) = PInf" by (rule fl_overflow)
  then show ?thesis by (simp add: radius_rounded_def fl_999 fl_1998_5 rounded_def)
qed

lemma radius_spec_1000: "radius_spec 1000 < 2 ^ 700"
proof -
  have "(10::real) powr ((1000 - 1) / 2.5) \<le> 10 powr 400" by (intro powr_mono) simp_all
  also have "\<dots> = 10 ^ 400" by simp
  finally have p: "(10::real) powr ((1000 - 1) / 2.5) \<le> 10 ^ 400" .
  have "(10 * 10 powr ((1000 - 1) / 2.5)) / pi \<le> (10 * 10 ^ 400) / 2"
    using p pi_ge_two by (intro frac_le) simp_all
  also have "\<dots> < (2 ^ 700)\<^sup>2" by simp
  finally have "sqrt ((10 * 10 powr ((1000 - 1) / 2.5)) / pi) < 2 ^ 700"
    by (intro real_less_lsqrt) simp_all
  then show ?thesis by (simp add: radius_spec_def)
qed

lemma fl_10_over_pi:
  "fl (10 / (884279719003555 / 281474976710656)) = Fin (1791925356007081 / 562949953421312)"
proof -
  have "ilog2 (10 / (884279719003555 / 281474976710656)) = 1" by (rule ilog2_eq) simp_all
  then show ?thesis
    by (simp add: fl_def with_sign_def round_mag_def quantum_def expo_def power_int_minus
        rne_def Let_def)
qed

lemma fl_sqrt_10_over_pi:
  "fl (sqrt (1791925356007081 / 562949953421312)) = Fin (502186294043021 / 281474976710656)"
proof -
  let ?q = "1791925356007081 / 562949953421312 :: real"
  have lo: "1 < sqrt ?q" by (intro real_less_rsqrt) simp
  have hi: "sqrt ?q < 2" by (intro real_less_lsqrt) simp_all
  have "ilog2 (sqrt ?q) = 0" using lo hi by (intro ilog2_eq) simp_all
  then have q: "quantum (sqrt ?q) = 1 / 2 ^ 52"
    by (simp add: quantum_def expo_def power_int_minus divide_simps)
  have a: "(8034980704688336 - 1 / 2) / 2 ^ 52 < sqrt ?q"
    by (intro real_less_rsqrt) (simp add: power2_eq_square)
  have b: "sqrt ?q < (8034980704688336 + 1 / 2) / 2 ^ 52"
    by (intro real_less_lsqrt) (simp_all add: power2_eq_square)
  have "rne (sqrt ?q * 2 ^ 52) = 8034980704688336"
    using a b by (intro rne_eqI) (simp_all add: field_simps)
  then have "round_mag (sqrt ?q) = 502186294043021 / 281474976710656"
    by (simp add: round_mag_def q)
  then show ?thesis using lo by (simp add: fl_def with_sign_def)
qed

lemma radius_rounded_1: "radius_rounded 1 = Fin (502186294043021 / 281474976710656)"
  using fl_10_over_pi fl_sqrt_10_over_pi
  by (simp add: radius_rounded_def rounded_def fl_0 fl_1 fl_10 Math_PI_nearest [symmetric]
      Math_PI_def)

text \<open>
  The magnitude \<open>1000\<close> is a double. There the power \<open>10^399.6\<close> is beyond the largest
  double, so with correctly rounded functions the radius is \<open>+\<infinity>\<close>, while the value of
  the formula is a real number below \<open>2 ^ 700\<close>, whose nearest double is finite.
\<close>

theorem marker_radius_overflows:
  "fl 1000 = Fin 1000 \<and>
   getMarkerRadius (exact_rt (\<lambda>v. NaN)) (Num (Fin 1000)) = PInf \<and>
   radius_spec 1000 < 2 ^ 700 \<and>
   is_inf (fl (radius_spec 1000)) = False"
proof (intro conjI)
  show "fl 1000 = Fin 1000" by (rule fl_1000)
  show "getMarkerRadius (exact_rt (\<lambda>v. NaN)) (Num (Fin 1000)) = PInf"
    by (simp only: exact_radius [OF fl_1000] radius_rounded_1000)
  show "radius_spec 1000 < 2 ^ 700" by (rule radius_spec_1000)
  have "0 \<le> radius_spec 1000" by (simp add: radius_spec_def)
  then have "\<bar>radius_spec 1000\<bar> < 2 ^ 1023" using radius_spec_1000 by simp
  then show "is_inf (fl (radius_spec 1000)) = False" by (rule fl_finite)
qed

text \<open>
  C1, as amended. \<open>getMarkerRadius\<close> computes the formula
  \<open>sqrt((10 * 10^((m - 1) / 2.5)) / \<pi>)\<close> in double arithmetic, for every number \<open>m\<close>
  and with no clamping. In every runtime it is
  \<open>Math.sqrt((10 * Math.pow(10, (m - 1) / 2.5)) / Math.PI)\<close>; at \<open>m = 1\<close> that is
  \<open>Math.sqrt(10 / Math.PI)\<close>, and at \<open>m = -1\<close> the power is taken at the double \<open>-0.8\<close>.
  \<open>Math.PI\<close> is the double nearest to \<open>\<pi>\<close>. And where the runtime's power and root are
  correctly rounded, the radius of a double \<open>m\<close> is the real formula with the result of
  every operation rounded to a double, \<open>+\<infinity>\<close> once a result overflows.
\<close>

theorem marker_radius_rounded:
  "getMarkerRadius rt (Num m) =
     Math_sqrt rt
       (js_div
          (js_mul (Fin 10) (Math_pow rt (Fin 10) (js_div (js_sub m (Fin 1)) (Fin (5 / 2)))))
          Math_PI) \<and>
   getMarkerRadius rt (Num (Fin 1)) = Math_sqrt rt (js_div (Fin 10) Math_PI) \<and>
   getMarkerRadius rt (Num (Fin (- 1))) =
     Math_sqrt rt
       (js_div
          (js_mul (Fin 10)
             (pow_impl rt (Fin 10) (Fin (- 3602879701896397 / 4503599627370496))))
          Math_PI) \<and>
   Math_PI = fl pi \<and>
   (fl r = Fin r \<longrightarrow> getMarkerRadius (exact_rt c) (Num (Fin r)) = radius_rounded r)"
proof (intro conjI)
  show "getMarkerRadius rt (Num m) =
     Math_sqrt rt
       (js_div
          (js_mul (Fin 10) (Math_pow rt (Fin 10) (js_div (js_sub m (Fin 1)) (Fin (5 / 2)))))
          Math_PI)"
    by (simp add: getMarkerRadius_def)
next
  have "js_sub (Fin 1) (Fin 1) = Fin 0" by (simp add: js_sub_def szero_def)
  moreover have "js_div (Fin 0) (Fin (5 / 2)) = Fin 0" by (simp add: js_div_def szero_def)
  moreover have "Math_pow rt (Fin 10) (Fin 0) = Fin 1" by (simp add: Math_pow_def)
  moreover have "js_mul (Fin 10) (Fin 1) = Fin 10" by (simp add: js_mul_def fl_10)
  ultimately show "getMarkerRadius rt (Num (Fin 1)) = Math_sqrt rt (js_div (Fin 10) Math_PI)"
    by (simp add: getMarkerRadius_def)
next
  have "js_sub (Fin (- 1)) (Fin 1) = Fin (- 2)" by (simp add: js_sub_def fl_minus_2)
  moreover have
    "js_div (Fin (- 2)) (Fin (5 / 2)) = Fin (- 3602879701896397 / 4503599627370496)"
    using fl_minus_4_5 by (simp add: js_div_def)
  moreover have
    "Math_pow rt (Fin 10) (Fin (- 3602879701896397 / 4503599627370496)) =
       pow_impl rt (Fin 10) (Fin (- 3602879701896397 / 4503599627370496))"
    by (simp add: Math_pow_def)
  ultimately show "getMarkerRadius rt (Num (Fin (- 1))) =
     Math_sqrt rt
       (js_div
          (js_mul (Fin 10)
             (pow_impl rt (Fin 10) (Fin (- 3602879701896397 / 4503599627370496))))
          Math_PI)"
    by (simp add: getMarkerRadius_def)
next
  show "Math_PI = fl pi" by (rule Math_PI_nearest)
next
  show "fl r = Fin r \<longrightarrow> getMarkerRadius (exact_rt c) (Num (Fin r)) = radius_rounded r"
    using exact_radius by blast
qed

text \<open>
  With correctly rounded functions the radius at magnitude \<open>1\<close> is the double
  \<open>1.7841241161527712\<close>.
\<close>

theorem marker_radius_rounded_witness:
  "fl 1 = Fin 1 \<and>
   getMarkerRadius (exact_rt (\<lambda>v. NaN)) (Num (Fin 1)) =
     Fin (502186294043021 / 281474976710656)"
proof -
  have "fl 1 = Fin 1 \<longrightarrow>
      getMarkerRadius (exact_rt (\<lambda>v. NaN)) (Num (Fin 1)) = radius_rounded 1"
    using marker_radius_rounded [of "exact_rt (\<lambda>v. NaN)" "Fin 1" 1 "\<lambda>v. NaN"]
    by blast
  then show ?thesis by (simp add: fl_1 radius_rounded_1)
qed





section \<open>Properties of markers and popups\<close>

lemma get_prop_Obj: "get_prop (Obj kvs) k = Inr (field kvs k)"
  by (simp add: field_def split: option.splits)

text \<open>
  A feature whose \<open>place\<close> field is present but holds the empty string gets no popup,
  though its geometry is complete and the renderer succeeds; and a feature whose
  \<open>place\<close> is a name but which has no \<open>geometry\<close> gets none either: the call throws.
\<close>

theorem empty_place_no_popup:
  "map_of [(''mag'', Num (Fin 1)), (''place'', Str '''')] ''place'' = Some (Str '''') \<and>
   onEachFeature (\<lambda>tree. Inr ''<h2></h2>'')
     (Obj [(''properties'', Obj [(''mag'', Num (Fin 1)), (''place'', Str '''')]),
           (''geometry'', Obj [(''coordinates'', Arr [Num (Fin 2), Num (Fin 3), Num (Fin 10)])])])
     \<lparr> latlng = (Fin 3, Fin 2), radius = Fin 1, color = ''red'', popup = None \<rparr> =
     Inr \<lparr> latlng = (Fin 3, Fin 2), radius = Fin 1, color = ''red'', popup = None \<rparr> \<and>
   map_of [(''mag'', Num (Fin 1)), (''place'', Str ''Somewhere'')] ''place'' =
     Some (Str ''Somewhere'') \<and>
   onEachFeature (\<lambda>tree. Inr ''<h2>Somewhere</h2>'')
     (Obj [(''properties'', Obj [(''mag'', Num (Fin 1)), (''place'', Str ''Somewhere'')])])
     \<lparr> latlng = (Fin 3, Fin 2), radius = Fin 1, color = ''red'', popup = None \<rparr> =
     Inl TypeError"
  by (simp add: onEachFeature_def Popup_def)

text \<open>
  C6, as amended. For a feature whose \<open>properties\<close> and \<open>geometry\<close> can be read and a
  marker without a popup: a popup is bound exactly when \<open>properties\<close> and
  \<open>properties.place\<close> are both truthy (so \<open>place\<close> is present and not empty, \<open>null\<close>,
  zero or \<open>false\<close>) and the popup is built and rendered without a throw; when
  \<open>properties\<close> or \<open>place\<close> is falsy the marker is returned as it was; and the marker
  \<open>pointToLayer\<close> makes is determined by \<open>properties.mag\<close> and the position alone.
\<close>

theorem popup_bound_iff:
  assumes "get_prop feature ''properties'' = Inr properties"
    and "get_prop feature ''geometry'' = Inr geometry"
    and "popup layer = None"
  shows
    "((\<exists>marker. onEachFeature renderToString feature layer = Inr marker \<and> popup marker \<noteq> None) \<longleftrightarrow>
        truthy properties \<and>
        (\<exists>place. get_prop properties ''place'' = Inr place \<and> truthy place) \<and>
        (\<exists>tree html. Popup properties geometry = Inr tree \<and> renderToString tree = Inr html)) \<and>
     (\<not> (truthy properties \<and> (\<exists>place. get_prop properties ''place'' = Inr place \<and> truthy place)) \<longrightarrow>
        onEachFeature renderToString feature layer = Inr layer) \<and>
     (\<forall>mag. get_prop properties ''mag'' = Inr mag \<longrightarrow>
        pointToLayer rt feature position =
          Inr \<lparr> latlng = position, radius = getMarkerRadius rt mag, color = ''red'',
                popup = None \<rparr>)"
proof (intro conjI)
  have np: "get_prop properties ''place'' \<noteq> Inl e" if "truthy properties" for e
    using that by (cases properties) (simp_all split: option.splits)
  show "(\<exists>marker. onEachFeature renderToString feature layer = Inr marker \<and> popup marker \<noteq> None) \<longleftrightarrow>
        truthy properties \<and>
        (\<exists>place. get_prop properties ''place'' = Inr place \<and> truthy place) \<and>
        (\<exists>tree html. Popup properties geometry = Inr tree \<and> renderToString tree = Inr html)"
    using assms by (auto simp: onEachFeature_def split: sum.splits if_splits)
  show "\<not> (truthy properties \<and> (\<exists>place. get_prop properties ''place'' = Inr place \<and> truthy place)) \<longrightarrow>
        onEachFeature renderToString feature layer = Inr layer"
    using assms np by (auto simp: onEachFeature_def split: sum.splits)
  show "\<forall>mag. get_prop properties ''mag'' = Inr mag \<longrightarrow>
        pointToLayer rt feature position =
          Inr \<lparr> latlng = position, radius = getMarkerRadius rt mag, color = ''red'',
                popup = None \<rparr>"
    using assms by (simp add: pointToLayer_def)
qed

theorem popup_bound_iff_witness:
  "onEachFeature (\<lambda>tree. Inr ''<h2>Somewhere</h2>'')
     (Obj [(''properties'', Obj [(''mag'', Num (Fin 1))]),
           (''geometry'', Obj [(''coordinates'', Arr [Num (Fin 2), Num (Fin 3), Num (Fin 10)])])])
     \<lparr> latlng = (Fin 3, Fin 2), radius = Fin 1, color = ''red'', popup = None \<rparr> =
     Inr \<lparr> latlng = (Fin 3, Fin 2), radius = Fin 1, color = ''red'', popup = None \<rparr> \<and>
   pointToLayer (exact_rt (\<lambda>v. NaN))
     (Obj [(''properties'', Obj [(''mag'', Num (Fin 1))]),
           (''geometry'', Obj [(''coordinates'', Arr [Num (Fin 2), Num (Fin 3), Num (Fin 10)])])])
     (Fin 3, Fin 2) =
     Inr \<lparr> latlng = (Fin 3, Fin 2),
           radius = getMarkerRadius (exact_rt (\<lambda>v. NaN)) (Num (Fin 1)),
           color = ''red'', popup = None \<rparr> \<and>
   (\<exists>marker.
      onEachFeature (\<lambda>tree. Inr ''<h2>Somewhere</h2>'')
        (Obj [(''properties'', Obj [(''mag'', Num (Fin 1)), (''place'', Str ''Somewhere'')]),
              (''geometry'', Obj [(''coordinates'', Arr [Num (Fin 2), Num (Fin 3), Num (Fin 10)])])])
        \<lparr> latlng = (Fin 3, Fin 2), radius = Fin 1, color = ''red'', popup = None \<rparr> = Inr marker \<and>
      popup marker \<noteq> None)"
proof -
  have t: "\<exists>tree. Popup (Obj [(''mag'', Num (Fin 1)), (''place'', Str ''Somewhere'')])
       (Obj [(''coordinates'', Arr [Num (Fin 2), Num (Fin 3), Num (Fin 10)])]) = Inr tree"
    by (simp add: Popup_def)
  show ?thesis
    using t
      popup_bound_iff
        [of "Obj [(''properties'', Obj [(''mag'', Num (Fin 1))]),
              (''geometry'', Obj [(''coordinates'', Arr [Num (Fin 2), Num (Fin 3), Num (Fin 10)])])]"
            "Obj [(''mag'', Num (Fin 1))]"
            "Obj [(''coordinates'', Arr [Num (Fin 2), Num (Fin 3), Num (Fin 10)])]"
            "\<lparr> latlng = (Fin 3, Fin 2), radius = Fin 1, color = ''red'', popup = None \<rparr>"
            "\<lambda>tree. Inr ''<h2>Somewhere</h2>''" "exact_rt (\<lambda>v. NaN)" "(Fin 3, Fin 2)"]
      popup_bound_iff
        [of "Obj [(''properties'', Obj [(''mag'', Num (Fin 1)), (''place'', Str ''Somewhere'')]),
              (''geometry'', Obj [(''coordinates'', Arr [Num (Fin 2), Num (Fin 3), Num (Fin 10)])])]"
            "Obj [(''mag'', Num (Fin 1)), (''place'', Str ''Somewhere'')]"
            "Obj [(''coordinates'', Arr [Num (Fin 2), Num (Fin 3), Num (Fin 10)])]"
            "\<lparr> latlng = (Fin 3, Fin 2), radius = Fin 1, color = ''red'', popup = None \<rparr>"
            "\<lambda>tree. Inr ''<h2>Somewhere</h2>''" "exact_rt (\<lambda>v. NaN)" "(Fin 3, Fin 2)"]
    by simp
qed

text \<open>
  C7. For a feature whose \<open>properties\<close> is an object and whose coordinates are an array
  of at least three entries, \<open>Popup\<close> returns: the place as a heading; a paragraph with
  the magnitude, the depth followed by \<open>km\<close>, the type and the pair longitude,
  latitude, each after its label; and a link \<open>More info\<close> to \<open>properties.url\<close> with
  target \<open>_blank\<close>. When the place is truthy, this is what \<open>onEachFeature\<close> renders
  and binds to the marker.
\<close>

theorem popup_content:
  assumes "get_prop feature ''properties'' = Inr (Obj kvs)"
    and "get_prop feature ''geometry'' = Inr geometry"
    and "get_prop geometry ''coordinates'' = Inr (Arr (lon # lat # depth # rest))"
  shows
    "(let tree =
        Elem ''Fragment'' []
          [Elem ''Typography'' [(''variant'', Str ''h2'')] [Expr (field kvs ''place'')],
           Text '' '',
           Elem ''p'' []
             [bold ''MAGNITUDE'', Text '': '', Expr (field kvs ''mag''),
              Elem ''br'' [] [],
              bold ''DEPTH'', Text '': '', Expr depth, Text '' km'',
              Elem ''br'' [] [],
              bold ''TYPE'', Text '': '', Expr (field kvs ''type''),
              Elem ''br'' [] [],
              bold ''Lon/Lat'', Text '': '', Expr lon, Text '', '', Expr lat],
           Elem ''Typography'' [(''variant'', Str ''h3'')]
             [Elem ''Link''
                [(''variant'', Str ''h3''), (''target'', Str ''_blank''),
                 (''href'', field kvs ''url'')]
                [Text ''More info'']]]
      in Popup (Obj kvs) geometry = Inr tree \<and>
         (truthy (field kvs ''place'') \<longrightarrow>
            onEachFeature renderToString feature layer =
              (case renderToString tree of
                 Inl e \<Rightarrow> Inl e
               | Inr html \<Rightarrow> Inr (layer\<lparr>popup := Some html\<rparr>))))"
proof -
  have p: "Popup (Obj kvs) geometry =
    Inr (Elem ''Fragment'' []
          [Elem ''Typography'' [(''variant'', Str ''h2'')] [Expr (field kvs ''place'')],
           Text '' '',
           Elem ''p'' []
             [bold ''MAGNITUDE'', Text '': '', Expr (field kvs ''mag''),
              Elem ''br'' [] [],
              bold ''DEPTH'', Text '': '', Expr depth, Text '' km'',
              Elem ''br'' [] [],
              bold ''TYPE'', Text '': '', Expr (field kvs ''type''),
              Elem ''br'' [] [],
              bold ''Lon/Lat'', Text '': '', Expr lon, Text '', '', Expr lat],
           Elem ''Typography'' [(''variant'', Str ''h3'')]
             [Elem ''Link''
                [(''variant'', Str ''h3''), (''target'', Str ''_blank''),
                 (''href'', field kvs ''url'')]
                [Text ''More info'']]])"
    by (simp only: Popup_def assms(3))
      (simp add: get_prop_Obj at_index_def del: get_prop.simps)
  show ?thesis
    unfolding Let_def
    by (simp add: p onEachFeature_def assms(1,2) get_prop_Obj del: get_prop.simps)
qed

theorem popup_content_witness:
  "Popup
     (Obj [(''mag'', Num (fl (42 / 10))), (''place'', Str ''10km N of Testville''),
           (''type'', Str ''earthquake''), (''url'', Str ''http://x'')])
     (Obj [(''coordinates'',
            Arr [Num (fl (- 1201 / 10)), Num (fl (352 / 10)), Num (fl (83 / 10))])]) =
     Inr (Elem ''Fragment'' []
       [Elem ''Typography'' [(''variant'', Str ''h2'')] [Expr (Str ''10km N of Testville'')],
        Text '' '',
        Elem ''p'' []
          [bold ''MAGNITUDE'', Text '': '', Expr (Num (fl (42 / 10))),
           Elem ''br'' [] [],
           bold ''DEPTH'', Text '': '', Expr (Num (fl (83 / 10))), Text '' km'',
           Elem ''br'' [] [],
           bold ''TYPE'', Text '': '', Expr (Str ''earthquake''),
           Elem ''br'' [] [],
           bold ''Lon/Lat'', Text '': '', Expr (Num (fl (- 1201 / 10))), Text '', '',
           Expr (Num (fl (352 / 10)))],
        Elem ''Typography'' [(''variant'', Str ''h3'')]
          [Elem ''Link''
             [(''variant'', Str ''h3''), (''target'', Str ''_blank''), (''href'', Str ''http://x'')]
             [Text ''More info'']]]) \<and>
   onEachFeature (\<lambda>tree. Inr ''<h2>10km N of Testville</h2>'')
     (Obj [(''properties'',
            Obj [(''mag'', Num (fl (42 / 10))), (''place'', Str ''10km N of Testville''),
                 (''type'', Str ''earthquake''), (''url'', Str ''http://x'')]),
           (''geometry'',
            Obj [(''coordinates'',
                  Arr [Num (fl (- 1201 / 10)), Num (fl (352 / 10)), Num (fl (83 / 10))])])])
     \<lparr> latlng = (fl (352 / 10), fl (- 1201 / 10)), radius = Fin 2, color = ''red'',
       popup = None \<rparr> =
     Inr \<lparr> latlng = (fl (352 / 10), fl (- 1201 / 10)), radius = Fin 2, color = ''red'',
           popup = Some ''<h2>10km N of Testville</h2>'' \<rparr>"
  using popup_content
    [of "Obj [(''properties'',
            Obj [(''mag'', Num (fl (42 / 10))), (''place'', Str ''10km N of Testville''),
                 (''type'', Str ''earthquake''), (''url'', Str ''http://x'')]),
           (''geometry'',
            Obj [(''coordinates'',
                  Arr [Num (fl (- 1201 / 10)), Num (fl (352 / 10)), Num (fl (83 / 10))])])]"
        "[(''mag'', Num (fl (42 / 10))), (''place'', Str ''10km N of Testville''),
          (''type'', Str ''earthquake''), (''url'', Str ''http://x'')]"
        "Obj [(''coordinates'',
               Arr [Num (fl (- 1201 / 10)), Num (fl (352 / 10)), Num (fl (83 / 10))])]"
        "Num (fl (- 1201 / 10))" "Num (fl (352 / 10))" "Num (fl (83 / 10))" "[]"
        "\<lambda>tree. Inr ''<h2>10km N of Testville</h2>''"
        "\<lparr> latlng = (fl (352 / 10), fl (- 1201 / 10)), radius = Fin 2, color = ''red'',
           popup = None \<rparr>"]
  by (simp add: field_def Let_def)

text \<open>
  C10. \<open>onEachFeature\<close> tests \<open>properties\<close> and \<open>properties.place\<close> only: for a feature
  that passes the test and has no \<open>geometry\<close> field, the read of
  \<open>geometry.coordinates\<close> throws a \<open>TypeError\<close>, whatever the renderer and the layer.
\<close>

theorem popup_without_geometry_throws:
  assumes "get_prop feature ''properties'' = Inr properties" and "truthy properties"
    and "get_prop properties ''place'' = Inr place" and "truthy place"
    and "get_prop feature ''geometry'' = Inr Undefined"
  shows "onEachFeature renderToString feature layer = Inl TypeError"
  using assms by (simp add: onEachFeature_def Popup_def)

theorem popup_without_geometry_throws_witness:
  "onEachFeature (\<lambda>tree. Inr ''<h2>Somewhere</h2>'')
     (Obj [(''type'', Str ''Feature''),
           (''properties'', Obj [(''mag'', Num (Fin 1)), (''place'', Str ''Somewhere'')])])
     \<lparr> latlng = (Fin 0, Fin 0), radius = Fin 1, color = ''red'', popup = None \<rparr> =
   Inl TypeError"
  using popup_without_geometry_throws
    [of "Obj [(''type'', Str ''Feature''),
           (''properties'', Obj [(''mag'', Num (Fin 1)), (''place'', Str ''Somewhere'')])]"
        "Obj [(''mag'', Num (Fin 1)), (''place'', Str ''Somewhere'')]" "Str ''Somewhere''"]
  by simp

section \<open>Properties of the filter buttons and the fetch\<close>

lemma deps_useEffect: "deps (useEffect s) = Some (minMag s, timespan s)"
  by (simp add: useEffect_def Let_def)

lemma minMag_useEffect: "minMag (useEffect s) = minMag s"
  by (simp add: useEffect_def Let_def)

lemma timespan_useEffect: "timespan (useEffect s) = timespan s"
  by (simp add: useEffect_def Let_def)

lemma useEffect_fetch_calls:
  "fetch_calls (useEffect s) =
     (if deps s = Some (minMag s, timespan s) then fetch_calls s
      else fetch_calls s @ [BASE_URL @ ''/'' @ minMag s @ ''_'' @ timespan s @ ''.geojson''])"
  by (simp add: useEffect_def Let_def)

lemma mount_eval:
  "mount = \<lparr> quakesJson = Arr [], minMag = ''2.5'', timespan = ''week'',
     deps = Some (''2.5'', ''week''), fetch_calls = [BASE_URL @ ''/2.5_week.geojson''],
     console = [], unmounted = False \<rparr>"
  by (simp add: mount_def useEffect_def Let_def)

lemma run_snoc: "run (es @ [e]) = step e (run es)"
  by (simp add: run_def)

lemma fetchQuakeData_frame:
  "minMag (snd (fetchQuakeData url outcome s)) = minMag s"
  "timespan (snd (fetchQuakeData url outcome s)) = timespan s"
  "deps (snd (fetchQuakeData url outcome s)) = deps s"
  "fetch_calls (snd (fetchQuakeData url outcome s)) = fetch_calls s"
  "unmounted (snd (fetchQuakeData url outcome s)) = unmounted s"
  by (simp_all add: fetchQuakeData_def split: sum.splits)

lemma rerender_frame:
  "minMag (rerender s) = minMag s"
  "timespan (rerender s) = timespan s"
  "quakesJson (rerender s) = quakesJson s"
  "console (rerender s) = console s"
  by (simp_all add: rerender_def useEffect_def Let_def split: sum.splits)

lemma rerender_settled:
  "deps s = Some (minMag s, timespan s) \<Longrightarrow>
   deps (rerender s) = deps s \<and> fetch_calls (rerender s) = fetch_calls s"
  by (simp add: rerender_def useEffect_def split: sum.splits)

text \<open>
  After every event the effect has run for the current filter values: the kept
  dependencies are the current ones.
\<close>

lemma deps_click:
  "deps s = Some (minMag s, timespan s) \<Longrightarrow>
   deps (click b s) = Some (minMag (click b s), timespan (click b s))"
  by (simp add: click_def deps_useEffect minMag_useEffect timespan_useEffect)

lemma deps_step:
  "deps s = Some (minMag s, timespan s) \<Longrightarrow>
   deps (step e s) = Some (minMag (step e s), timespan (step e s))"
  by (cases e)
    (auto simp: deps_click rerender_frame rerender_settled fetchQuakeData_frame
      split: option.splits)

lemma deps_run: "deps (run es) = Some (minMag (run es), timespan (run es))"
proof (induction es rule: rev_induct)
  case Nil
  show ?case
    by (simp add: run_def mount_def deps_useEffect minMag_useEffect timespan_useEffect)
next
  case (snoc e es)
  then show ?case by (simp add: run_snoc deps_step)
qed

lemma step_fetch_calls:
  assumes "deps s = Some (minMag s, timespan s)"
  shows "fetch_calls (step e s) =
     (if (minMag (step e s), timespan (step e s)) = (minMag s, timespan s) then fetch_calls s
      else fetch_calls s @
        [BASE_URL @ ''/'' @ minMag (step e s) @ ''_'' @ timespan (step e s) @ ''.geojson''])"
proof -
  have pressed: "fetch_calls (click b s) =
     (if (minMag (click b s), timespan (click b s)) = (minMag s, timespan s) then fetch_calls s
      else fetch_calls s @
        [BASE_URL @ ''/'' @ minMag (click b s) @ ''_'' @ timespan (click b s) @ ''.geojson''])"
    for b
    using assms
    by (cases "onClick b")
      (auto simp: click_def useEffect_fetch_calls minMag_useEffect timespan_useEffect)
  show ?thesis
  proof (cases e)
    case (ClickMagnitude k)
    then show ?thesis using pressed by (simp split: option.splits)
  next
    case (ClickTimespan k)
    then show ?thesis using pressed by (simp split: option.splits)
  next
    case (Settle url outcome)
    then show ?thesis
      using assms
      by (simp add: rerender_frame rerender_settled fetchQuakeData_frame)
  qed
qed

text \<open>
  C2. In every run of the component, an event that changes \<open>minMag\<close> or \<open>timespan\<close> adds
  exactly one call of \<open>fetchQuakeData\<close>, and its URL is the base URL, a slash, the new
  \<open>minMag\<close>, an underscore, the new \<open>timespan\<close> and \<open>.geojson\<close>; an event that changes
  neither adds no call.
\<close>

theorem fetch_on_change:
  "fetch_calls (step e (run es)) =
     (if (minMag (step e (run es)), timespan (step e (run es))) =
         (minMag (run es), timespan (run es))
      then fetch_calls (run es)
      else fetch_calls (run es) @
        [BASE_URL @ ''/'' @ minMag (step e (run es)) @ ''_'' @ timespan (step e (run es)) @
           ''.geojson''])"
  by (rule step_fetch_calls [OF deps_run])

theorem fetch_on_change_witness:
  "fetch_calls (step (ClickTimespan ''day'') (run [])) =
     [''https://earthquake.usgs.gov/earthquakes/feed/v1.0/summary//2.5_week.geojson'',
      ''https://earthquake.usgs.gov/earthquakes/feed/v1.0/summary//2.5_day.geojson'']"
  using fetch_on_change [of "ClickTimespan ''day''" "[]"]
  by (simp add: run_def mount_eval timespan_buttons_def click_def minMag_useEffect
      timespan_useEffect BASE_URL_def)

text \<open>
  C3. The state with \<open>timespan = "month"\<close> and \<open>minMag = "all"\<close> is reached from the
  first render by two clicks: the magnitude button \<open>all\<close> (enabled while the window is
  \<open>week\<close>), then the time-window button \<open>month\<close> (never disabled, and its handler
  leaves \<open>minMag\<close> as it is). The feed \<open>all_month\<close> is then requested.
\<close>

theorem month_all_reachable:
  "minMag (run [ClickMagnitude ''all'', ClickTimespan ''month'']) = ''all'' \<and>
   timespan (run [ClickMagnitude ''all'', ClickTimespan ''month'']) = ''month'' \<and>
   fetch_calls (run [ClickMagnitude ''all'', ClickTimespan ''month'']) =
     [BASE_URL @ ''/2.5_week.geojson'', BASE_URL @ ''/all_week.geojson'',
      BASE_URL @ ''/all_month.geojson'']"
  by (simp add: run_def mount_eval magnitude_buttons_def timespan_buttons_def click_def
      useEffect_def Let_def)

text \<open>
  The failures that throw inside the \<open>try\<close> block of \<open>fetchQuakeData\<close> (the request is
  rejected, the response is not \<open>ok\<close>, the body is not JSON, the parsed body is \<open>null\<close>)
  are handed to \<open>console.log\<close> and change nothing else of the component, so
  \<open>quakesJson\<close> keeps its value; and the promise of \<open>fetchQuakeData\<close> is never rejected.
\<close>

theorem fetch_failure_caught:
  "fetchQuakeData url (Rejected e) s = (Inr (), s\<lparr>console := console s @ [e]\<rparr>) \<and>
   (\<not> ok resp \<longrightarrow>
      fetchQuakeData url (Resolved resp) s =
        (Inr (), s\<lparr>console := console s @ [Error (''Error fetching data from '' @ url)]\<rparr>)) \<and>
   (ok resp \<and> json resp = Inl e \<longrightarrow>
      fetchQuakeData url (Resolved resp) s = (Inr (), s\<lparr>console := console s @ [e]\<rparr>)) \<and>
   (fetchQuakeData_try url outcome = Inl e \<longrightarrow>
      fetchQuakeData url outcome s = (Inr (), s\<lparr>console := console s @ [e]\<rparr>)) \<and>
   fst (fetchQuakeData url outcome s) = Inr ()"
  by (simp add: fetchQuakeData_def fetchQuakeData_try_def split: sum.splits fetch_outcome.splits)

theorem fetch_failure_caught_witness:
  "quakesJson (snd (fetchQuakeData ''u'' (Rejected TypeError) (run []))) = Arr [] \<and>
   fetchQuakeData ''u''
       (Resolved \<lparr>ok = False, json = Inr (Obj [(''features'', Arr [Null])])\<rparr>) (run []) =
     (Inr (), (run [])\<lparr>console := [Error ''Error fetching data from u'']\<rparr>) \<and>
   fetchQuakeData ''u'' (Resolved \<lparr>ok = True, json = Inl SyntaxError\<rparr>) (run []) =
     (Inr (), (run [])\<lparr>console := [SyntaxError]\<rparr>) \<and>
   fetchQuakeData ''u'' (Resolved \<lparr>ok = True, json = Inr Null\<rparr>) (run []) =
     (Inr (), (run [])\<lparr>console := [TypeError]\<rparr>)"
  using
    fetch_failure_caught [of "''u''" TypeError "run []"
      "\<lparr>ok = False, json = Inr (Obj [(''features'', Arr [Null])])\<rparr>"]
    fetch_failure_caught [of "''u''" SyntaxError "run []"
      "\<lparr>ok = True, json = Inl SyntaxError\<rparr>"]
    fetch_failure_caught [of "''u''" TypeError "run []" "\<lparr>ok = True, json = Inr Null\<rparr>"
      "Resolved \<lparr>ok = True, json = Inr Null\<rparr>"]
  by (simp add: run_def mount_eval fetchQuakeData_try_def)

text \<open>
  A mounted component has a \<open>quakesJson\<close> whose length can be read: the render that
  could not read it removed the component.
\<close>

lemma mounted_step:
  assumes "unmounted s \<or> (\<exists>k. get_length (quakesJson s) = Inr k)"
  shows "unmounted (step e s) \<or> (\<exists>k. get_length (quakesJson (step e s)) = Inr k)"
proof (cases e)
  case (ClickMagnitude k)
  then show ?thesis
    using assms
    by (cases "onClick (the (find (\<lambda>b. key b = k) (magnitude_buttons s)))")
      (auto simp: click_def useEffect_def Let_def split: option.splits)
next
  case (ClickTimespan k)
  then show ?thesis
    using assms
    by (cases "onClick (the (find (\<lambda>b. key b = k) (timespan_buttons s)))")
      (auto simp: click_def useEffect_def Let_def split: option.splits)
next
  case (Settle url outcome)
  then show ?thesis
    using assms
    by (auto simp: rerender_def Map_body_def useEffect_def Let_def split: sum.splits)
qed

lemma mounted_run:
  "unmounted (run es) \<or> (\<exists>k. get_length (quakesJson (run es)) = Inr k)"
proof (induction es rule: rev_induct)
  case Nil
  show ?case by (simp add: run_def mount_eval)
next
  case (snoc e es)
  then show ?case unfolding run_snoc by (rule mounted_step)
qed

text \<open>
  A body that parses to an object without a \<open>features\<close> field is no failure for
  \<open>fetchQuakeData\<close>: nothing is thrown, and \<open>quakesJson\<close> becomes \<open>undefined\<close>.
\<close>

lemma fetch_body_without_features:
  "fetchQuakeData url (Resolved \<lparr>ok = True, json = Inr (Obj [])\<rparr>) s =
     (Inr (), s\<lparr>quakesJson := Undefined\<rparr>)"
  by (simp add: fetchQuakeData_def fetchQuakeData_try_def)

text \<open>
  C4. A response that is \<open>ok\<close> and whose body is the JSON document \<open>{}\<close> is a malformed
  body that \<open>fetchQuakeData\<close> does not catch. After a fetch that gave one feature, such
  a response leaves the console empty, replaces the collection by \<open>undefined\<close>, and the
  render that follows throws at \<open>quakesJson.length\<close>, which removes the component.
\<close>

theorem body_without_features_unmounts:
  "quakesJson
     (run [Settle ''u''
             (Resolved \<lparr>ok = True, json = Inr (Obj [(''features'', Arr [Obj []])])\<rparr>)]) =
     Arr [Obj []] \<and>
   quakesJson
     (run [Settle ''u''
             (Resolved \<lparr>ok = True, json = Inr (Obj [(''features'', Arr [Obj []])])\<rparr>),
           Settle ''u'' (Resolved \<lparr>ok = True, json = Inr (Obj [])\<rparr>)]) = Undefined \<and>
   console
     (run [Settle ''u''
             (Resolved \<lparr>ok = True, json = Inr (Obj [(''features'', Arr [Obj []])])\<rparr>),
           Settle ''u'' (Resolved \<lparr>ok = True, json = Inr (Obj [])\<rparr>)]) = [] \<and>
   unmounted
     (run [Settle ''u''
             (Resolved \<lparr>ok = True, json = Inr (Obj [(''features'', Arr [Obj []])])\<rparr>),
           Settle ''u'' (Resolved \<lparr>ok = True, json = Inr (Obj [])\<rparr>)])"
  by (simp add: run_def mount_eval fetchQuakeData_def fetchQuakeData_try_def rerender_def
      Map_body_def useEffect_def Let_def)

text \<open>
  C8. When the response is \<open>ok\<close> and its body parses to a value with a \<open>features\<close>
  field, \<open>quakesJson\<close> becomes that field's value, whatever it held before, and nothing
  else of the component changes.
\<close>

theorem fetch_success_replaces:
  "ok resp \<Longrightarrow> json resp = Inr data \<Longrightarrow> get_prop data ''features'' = Inr features \<Longrightarrow>
   fetchQuakeData url (Resolved resp) s = (Inr (), s\<lparr>quakesJson := features\<rparr>)"
  by (simp add: fetchQuakeData_def fetchQuakeData_try_def)

theorem fetch_success_replaces_witness:
  "quakesJson (snd (fetchQuakeData ''u''
      (Resolved \<lparr>ok = True,
         json = Inr (Obj [(''type'', Str ''FeatureCollection''), (''features'', Arr [])])\<rparr>)
      ((run [])\<lparr>quakesJson := Arr [Null, Null]\<rparr>))) = Arr []"
  using fetch_success_replaces
    [of "\<lparr>ok = True,
           json = Inr (Obj [(''type'', Str ''FeatureCollection''), (''features'', Arr [])])\<rparr>"
        "Obj [(''type'', Str ''FeatureCollection''), (''features'', Arr [])]" "Arr []" "''u''"
        "(run [])\<lparr>quakesJson := Arr [Null, Null]\<rparr>"]
  by simp

text \<open>
  C9. Of the five magnitude buttons, \<open>all\<close> and \<open>1.0\<close> are disabled exactly when
  \<open>timespan\<close> is \<open>month\<close> and the other three never; the four time-window buttons are
  never disabled. A click on a magnitude button selects its value unless the button is
  disabled, and a click on a time-window button always selects its value.
\<close>

theorem filter_buttons_disabled:
  "map (\<lambda>b. (key b, disabled b)) (magnitude_buttons s) =
     [(''all'', timespan s = ''month''), (''1.0'', timespan s = ''month''),
      (''2.5'', False), (''4.5'', False), (''significant'', False)] \<and>
   map (\<lambda>b. (key b, disabled b)) (timespan_buttons s) =
     [(''hour'', False), (''day'', False), (''week'', False), (''month'', False)] \<and>
   (\<forall>b \<in> set (magnitude_buttons s).
      minMag (click b s) = (if disabled b then minMag s else key b)) \<and>
   (\<forall>b \<in> set (timespan_buttons s). timespan (click b s) = key b)"
  by (simp add: magnitude_buttons_def timespan_buttons_def click_def minMag_useEffect
      timespan_useEffect)

theorem filter_buttons_disabled_witness:
  "map (\<lambda>b. (key b, disabled b)) (magnitude_buttons (run [ClickTimespan ''month''])) =
     [(''all'', True), (''1.0'', True), (''2.5'', False), (''4.5'', False),
      (''significant'', False)] \<and>
   map (\<lambda>b. (key b, disabled b)) (magnitude_buttons (run [])) =
     [(''all'', False), (''1.0'', False), (''2.5'', False), (''4.5'', False),
      (''significant'', False)] \<and>
   minMag (step (ClickMagnitude ''all'') (run [ClickTimespan ''month''])) = ''2.5'' \<and>
   minMag (step (ClickMagnitude ''all'') (run [])) = ''all''"
  using filter_buttons_disabled [of "run [ClickTimespan ''month'']"]
    filter_buttons_disabled [of "run []"]
  by (simp add: run_def mount_def useEffect_def Let_def magnitude_buttons_def
      timespan_buttons_def click_def)

end
